theory Spec2Isabelle
  imports Complex_Main
begin

section \<open>Numbers of type \<open>data_t\<close>\<close>

text \<open>
  \<open>data_t\<close> is a C double. A value is modelled as a finite real, one of the two
  infinities, or NaN. The special values follow IEEE 754, and the sign of zero is not
  represented. The operations below give the exact result on finite values: they are
  the arithmetic of the source without the rounding and the overflow of doubles. The
  rounding is the subject of the section on the arithmetic of doubles, where the kernel
  and the two passes are given with it.
\<close>

datatype data_t = Fin real | PInf | MInf | NaN

instantiation data_t :: "{plus, minus, uminus, times, inverse, ord}"
begin

fun plus_data_t :: "data_t \<Rightarrow> data_t \<Rightarrow> data_t" where
  "plus_data_t (Fin x) (Fin y) = Fin (x + y)"
| "plus_data_t (Fin x) PInf = PInf"
| "plus_data_t (Fin x) MInf = MInf"
| "plus_data_t PInf (Fin y) = PInf"
| "plus_data_t PInf PInf = PInf"
| "plus_data_t PInf MInf = NaN"
| "plus_data_t MInf (Fin y) = MInf"
| "plus_data_t MInf PInf = NaN"
| "plus_data_t MInf MInf = MInf"
| "plus_data_t NaN b = NaN"
| "plus_data_t a NaN = NaN"

fun uminus_data_t :: "data_t \<Rightarrow> data_t" where
  "uminus_data_t (Fin x) = Fin (- x)"
| "uminus_data_t PInf = MInf"
| "uminus_data_t MInf = PInf"
| "uminus_data_t NaN = NaN"

definition minus_data_t :: "data_t \<Rightarrow> data_t \<Rightarrow> data_t" where
  "minus_data_t a b = a + (- b)"

fun times_data_t :: "data_t \<Rightarrow> data_t \<Rightarrow> data_t" where
  "times_data_t (Fin x) (Fin y) = Fin (x * y)"
| "times_data_t (Fin x) PInf = (if x = 0 then NaN else if 0 < x then PInf else MInf)"
| "times_data_t (Fin x) MInf = (if x = 0 then NaN else if 0 < x then MInf else PInf)"
| "times_data_t PInf (Fin y) = (if y = 0 then NaN else if 0 < y then PInf else MInf)"
| "times_data_t MInf (Fin y) = (if y = 0 then NaN else if 0 < y then MInf else PInf)"
| "times_data_t PInf PInf = PInf"
| "times_data_t PInf MInf = MInf"
| "times_data_t MInf PInf = MInf"
| "times_data_t MInf MInf = PInf"
| "times_data_t NaN b = NaN"
| "times_data_t a NaN = NaN"

fun divide_data_t :: "data_t \<Rightarrow> data_t \<Rightarrow> data_t" where
  "divide_data_t (Fin x) (Fin y) =
     (if y \<noteq> 0 then Fin (x / y)
      else if x = 0 then NaN else if 0 < x then PInf else MInf)"
| "divide_data_t (Fin x) PInf = Fin 0"
| "divide_data_t (Fin x) MInf = Fin 0"
| "divide_data_t PInf (Fin y) = (if 0 \<le> y then PInf else MInf)"
| "divide_data_t MInf (Fin y) = (if 0 \<le> y then MInf else PInf)"
| "divide_data_t PInf PInf = NaN"
| "divide_data_t PInf MInf = NaN"
| "divide_data_t MInf PInf = NaN"
| "divide_data_t MInf MInf = NaN"
| "divide_data_t NaN b = NaN"
| "divide_data_t a NaN = NaN"

fun inverse_data_t :: "data_t \<Rightarrow> data_t" where
  "inverse_data_t (Fin x) = (if x \<noteq> 0 then Fin (1 / x) else PInf)"
| "inverse_data_t PInf = Fin 0"
| "inverse_data_t MInf = Fin 0"
| "inverse_data_t NaN = NaN"

text \<open>Comparisons with NaN are false.\<close>

fun less_data_t :: "data_t \<Rightarrow> data_t \<Rightarrow> bool" where
  "less_data_t (Fin x) (Fin y) = (x < y)"
| "less_data_t (Fin x) PInf = True"
| "less_data_t MInf (Fin y) = True"
| "less_data_t MInf PInf = True"
| "less_data_t a b = False"

definition less_eq_data_t :: "data_t \<Rightarrow> data_t \<Rightarrow> bool" where
  "less_eq_data_t a b = (a < b \<or> (a \<noteq> NaN \<and> a = b))"

instance ..

end

definition isnan :: "data_t \<Rightarrow> bool" where
  "isnan x = (x = NaN)"

definition isinf :: "data_t \<Rightarrow> bool" where
  "isinf x = (x = PInf \<or> x = MInf)"

text \<open>\<open>a != b\<close> on doubles: NaN differs from everything, itself included.\<close>

definition neq :: "data_t \<Rightarrow> data_t \<Rightarrow> bool" where
  "neq a b = (a = NaN \<or> b = NaN \<or> a \<noteq> b)"

definition dabs :: "data_t \<Rightarrow> data_t" where
  "dabs x = (case x of Fin r \<Rightarrow> Fin \<bar>r\<bar> | PInf \<Rightarrow> PInf | MInf \<Rightarrow> PInf | NaN \<Rightarrow> NaN)"

definition INF_const :: data_t where
  "INF_const = PInf"

definition LOG_ZERO :: data_t where
  "LOG_ZERO = - INF_const"

definition ZERO :: data_t where
  "ZERO = Fin 0"

text \<open>
  The C math library is not part of the repository. Its \<open>exp\<close> on a finite argument and
  its \<open>log\<close> on a finite positive argument are parameters of the model; what they do on
  zero, negative numbers, infinities and NaN is fixed by IEEE 754.
\<close>

record libm =
  exp_fin :: "real \<Rightarrow> data_t"
  log_pos :: "real \<Rightarrow> data_t"

definition libc_exp :: "libm \<Rightarrow> data_t \<Rightarrow> data_t" where
  "libc_exp M x = (case x of Fin r \<Rightarrow> exp_fin M r | PInf \<Rightarrow> PInf | MInf \<Rightarrow> Fin 0 | NaN \<Rightarrow> NaN)"

definition libc_log :: "libm \<Rightarrow> data_t \<Rightarrow> data_t" where
  "libc_log M x =
     (case x of
        Fin r \<Rightarrow> (if r < 0 then NaN else if r = 0 then MInf else log_pos M r)
      | PInf \<Rightarrow> PInf
      | MInf \<Rightarrow> NaN
      | NaN \<Rightarrow> NaN)"

text \<open>
  Exact arithmetic: \<open>exp\<close> and \<open>log\<close> are the real functions, which neither round
  nor underflow. No math library on doubles is this one.
\<close>

definition exact_math :: libm where
  "exact_math = \<lparr>exp_fin = (\<lambda>r. Fin (exp r)), log_pos = (\<lambda>r. Fin (ln r))\<rparr>"


section \<open>Numeric kernel\<close>

text \<open>\<open>_max\<close>: the maximum of an array, starting from \<open>-INF\<close>; a NaN entry never wins.\<close>

definition vec_max :: "data_t list \<Rightarrow> data_t" where
  "vec_max vec = fold (\<lambda>v best_val. if best_val < v then v else best_val) vec (- INF_const)"

text \<open>\<open>elogsum\<close>: the stable logarithm of a sum of exponentials.\<close>

definition elogsum :: "libm \<Rightarrow> data_t list \<Rightarrow> data_t" where
  "elogsum M vec =
     (let offset = vec_max vec in
      if isinf offset then - INF_const
      else libc_log M (fold (\<lambda>v s. s + libc_exp M (v - offset)) vec (Fin 0)) + offset)"

text \<open>\<open>eexp2d\<close>, \<open>eexp3d\<close>, \<open>elog1d\<close>, \<open>elog2d\<close> work entry by entry.\<close>

definition eexp :: "libm \<Rightarrow> data_t \<Rightarrow> data_t" where
  "eexp M x = (if neq x LOG_ZERO then libc_exp M x else Fin 0)"

definition elog :: "libm \<Rightarrow> data_t \<Rightarrow> data_t" where
  "elog M x = (if neq x (Fin 0) then libc_log M x else LOG_ZERO)"

definition eexp2d :: "libm \<Rightarrow> data_t list list \<Rightarrow> data_t list list" where
  "eexp2d M src = map (map (eexp M)) src"

definition elog1d :: "libm \<Rightarrow> data_t list \<Rightarrow> data_t list" where
  "elog1d M src = map (elog M) src"

definition elog2d :: "libm \<Rightarrow> data_t list list \<Rightarrow> data_t list list" where
  "elog2d M src = map (map (elog M)) src"

section \<open>The model class \<open>HMM\<close>\<close>

text \<open>
  The fields of the base class. Arrays are lists, matrices lists of rows.
  \<open>n_features\<close> is \<open>-1\<close> until \<open>fit\<close> has set it. Subclasses extend the record with
  their emission parameters.
\<close>

record hmm =
  n_states :: nat
  n_features :: int
  missing_values :: bool
  transition_mask :: "bool list list"
  ln_initial_probs :: "data_t list"
  ln_transition_probs :: "data_t list list"
  initial_probs :: "data_t list"
  transition_probs :: "data_t list list"

definition is_trained :: "'a hmm_scheme \<Rightarrow> bool" where
  "is_trained h = (n_features h \<noteq> - 1)"

text \<open>
  Writes into a buffer: \<open>a[t, i] = v\<close> and \<open>a[t, i, j] = v\<close>. The buffers handed to the
  routines below have the shapes the class allocates for them, so every index is in range.
\<close>

definition upd2 :: "'v list list \<Rightarrow> nat \<Rightarrow> nat \<Rightarrow> 'v \<Rightarrow> 'v list list" where
  "upd2 a t i v = a[t := (a ! t)[i := v]]"

definition upd3 :: "'v list list list \<Rightarrow> nat \<Rightarrow> nat \<Rightarrow> nat \<Rightarrow> 'v \<Rightarrow> 'v list list list" where
  "upd3 a t i j v = a[t := upd2 (a ! t) i j v]"

text \<open>A matrix with \<open>T\<close> rows of \<open>N\<close> entries each.\<close>

definition shaped :: "nat \<Rightarrow> nat \<Rightarrow> 'v list list \<Rightarrow> bool" where
  "shaped T N a \<longleftrightarrow> length a = T \<and> list_all (\<lambda>row. length row = N) a"

definition compute_ln_phi :: "'a hmm_scheme \<Rightarrow> nat \<Rightarrow> nat \<Rightarrow> data_t list list" where
  "compute_ln_phi h sequence_id t = ln_transition_probs h"

subsection \<open>Forward pass\<close>

text \<open>The innermost loop of \<open>forward\<close>: \<open>tmp[i] = ln_alpha[t-1, i] + ln_phi[i, j]\<close>.\<close>

definition forward_tmp ::
  "'a hmm_scheme \<Rightarrow> data_t list list \<Rightarrow> data_t list list \<Rightarrow> nat \<Rightarrow> nat \<Rightarrow> data_t list \<Rightarrow> data_t list"
where
  "forward_tmp h ln_phi ln_alpha t j tmp =
     fold (\<lambda>i tmp. tmp[i := ln_alpha ! (t - 1) ! i + ln_phi ! i ! j]) [0..<n_states h] tmp"

text \<open>One pass of the loop over \<open>j\<close>: fill \<open>tmp\<close>, then write \<open>ln_alpha[t, j]\<close>.\<close>

definition forward_cell ::
  "libm \<Rightarrow> 'a hmm_scheme \<Rightarrow> data_t list list \<Rightarrow> data_t list list \<Rightarrow> nat \<Rightarrow> nat
     \<Rightarrow> data_t list list \<times> data_t list \<Rightarrow> data_t list list \<times> data_t list"
where
  "forward_cell M h lnf ln_phi t j st =
     (let tmp = forward_tmp h ln_phi (fst st) t j (snd st)
      in (upd2 (fst st) t j (elogsum M tmp + lnf ! t ! j), tmp))"

text \<open>One pass of the loop over \<open>t\<close>.\<close>

definition forward_row ::
  "libm \<Rightarrow> 'a hmm_scheme \<Rightarrow> data_t list list \<Rightarrow> nat \<Rightarrow> nat
     \<Rightarrow> data_t list list \<times> data_t list \<Rightarrow> data_t list list \<times> data_t list"
where
  "forward_row M h lnf sequence_id t st =
     (let ln_phi = compute_ln_phi h sequence_id t
      in fold (forward_cell M h lnf ln_phi t) [0..<n_states h] st)"

text \<open>
  \<open>forward\<close> returns the log-likelihood; the buffers \<open>ln_alpha\<close> and \<open>tmp\<close>, which it
  fills in place, are returned with it.
\<close>

definition forward ::
  "libm \<Rightarrow> 'a hmm_scheme \<Rightarrow> data_t list list \<Rightarrow> data_t list list \<Rightarrow> data_t list \<Rightarrow> nat
     \<Rightarrow> data_t \<times> data_t list list \<times> data_t list"
where
  "forward M h lnf ln_alpha tmp sequence_id =
     (let n_samples = length lnf;
          ln_alpha = fold (\<lambda>i a. upd2 a 0 i (ln_initial_probs h ! i + lnf ! 0 ! i))
                       [0..<n_states h] ln_alpha;
          st = fold (forward_row M h lnf sequence_id) [1..<n_samples] (ln_alpha, tmp)
      in (elogsum M (fst st ! (n_samples - 1)), fst st, snd st))"

subsection \<open>Backward pass\<close>

definition backward_tmp ::
  "'a hmm_scheme \<Rightarrow> data_t list list \<Rightarrow> data_t list list \<Rightarrow> data_t list list \<Rightarrow> nat \<Rightarrow> nat
     \<Rightarrow> data_t list \<Rightarrow> data_t list"
where
  "backward_tmp h lnf ln_phi ln_beta t i tmp =
     fold (\<lambda>j tmp. tmp[j := ln_phi ! i ! j + ln_beta ! (t + 1) ! j + lnf ! (t + 1) ! j])
       [0..<n_states h] tmp"

definition backward_cell ::
  "libm \<Rightarrow> 'a hmm_scheme \<Rightarrow> data_t list list \<Rightarrow> data_t list list \<Rightarrow> nat \<Rightarrow> nat
     \<Rightarrow> data_t list list \<times> data_t list \<Rightarrow> data_t list list \<times> data_t list"
where
  "backward_cell M h lnf ln_phi t i st =
     (let tmp = backward_tmp h lnf ln_phi (fst st) t i (snd st)
      in (upd2 (fst st) t i (elogsum M tmp), tmp))"

definition backward_row ::
  "libm \<Rightarrow> 'a hmm_scheme \<Rightarrow> data_t list list \<Rightarrow> nat \<Rightarrow> nat
     \<Rightarrow> data_t list list \<times> data_t list \<Rightarrow> data_t list list \<times> data_t list"
where
  "backward_row M h lnf sequence_id t st =
     (let ln_phi = compute_ln_phi h sequence_id t
      in fold (backward_cell M h lnf ln_phi t) [0..<n_states h] st)"

text \<open>
  The loop over \<open>t\<close> runs from \<open>n_samples - 2\<close> down to \<open>0\<close>. The value returned is
  \<open>elogsum(ln_beta[0, :] + lnf[0, :] + ln_initial_probs)\<close>, the three arrays added entry
  by entry.
\<close>

definition backward ::
  "libm \<Rightarrow> 'a hmm_scheme \<Rightarrow> data_t list list \<Rightarrow> data_t list list \<Rightarrow> data_t list \<Rightarrow> nat
     \<Rightarrow> data_t \<times> data_t list list \<times> data_t list"
where
  "backward M h lnf ln_beta tmp sequence_id =
     (let n_samples = length lnf;
          ln_beta = fold (\<lambda>i b. upd2 b (n_samples - 1) i (Fin 0)) [0..<n_states h] ln_beta;
          st = fold (backward_row M h lnf sequence_id) (rev [0..<n_samples - 1]) (ln_beta, tmp);
          lnP_b = elogsum M
                    (map2 (+) (map2 (+) (fst st ! 0) (lnf ! 0)) (ln_initial_probs h))
      in (lnP_b, fst st, snd st))"

subsection \<open>Errors\<close>

text \<open>
  The exceptions the routines below can end in. \<open>OutOfBounds\<close> stands for an access
  outside a buffer: the module is compiled with \<open>boundscheck=False\<close>, so the source does
  not raise there and what it does is undefined.
\<close>

datatype error =
    UntrainedModelError
  | UnknownCriterion
  | IndexError
  | ValueError
  | OverflowError
  | ZeroDivisionError
  | OutOfBounds
  | InvalidInput

fun bind_err :: "error + 'v \<Rightarrow> ('v \<Rightarrow> error + 'w) \<Rightarrow> error + 'w" where
  "bind_err (Inl e) f = Inl e"
| "bind_err (Inr v) f = f v"

text \<open>A loop over a list whose body can raise: the first exception ends it.\<close>

fun map_err :: "('v \<Rightarrow> error + 'w) \<Rightarrow> 'v list \<Rightarrow> error + 'w list" where
  "map_err f [] = Inr []"
| "map_err f (x # xs) = bind_err (f x) (\<lambda>y. bind_err (map_err f xs) (\<lambda>ys. Inr (y # ys)))"

subsection \<open>The methods a subclass provides\<close>

text \<open>
  \<open>emission_log_proba\<close>, \<open>update_emission_params\<close>, \<open>estimate_params\<close> and
  \<open>get_num_params_per_state\<close> are abstract in \<open>HMM\<close>; a subclass is given by its record
  extension \<open>'a\<close>, the type \<open>'x\<close> of one observed sample, and these methods.
  \<open>sample_has_nan\<close> is \<open>np.any(np.isnan(x))\<close> for one sample \<open>x\<close>.
\<close>

record ('a, 'x) emission_ops =
  emission_log_proba :: "'a hmm_scheme \<Rightarrow> 'x list \<Rightarrow> error + data_t list list"
  update_emission_params :: "'a hmm_scheme \<Rightarrow> 'x list \<Rightarrow> data_t list list \<Rightarrow> 'a hmm_scheme"
  estimate_params :: "'a hmm_scheme \<Rightarrow> 'x list list \<Rightarrow> error + 'a hmm_scheme"
  get_num_params_per_state :: "'a hmm_scheme \<Rightarrow> real"
  sample_has_nan :: "'x \<Rightarrow> bool"

text \<open>
  \<open>archmm.check_data\<close> is not among the sources: its two checks are parameters. Each
  returns the checked sequences and the number of features, or raises.
\<close>

record 'x checks =
  check_hmm_sequence :: "'x list \<Rightarrow> error + 'x list \<times> int"
  check_hmm_sequences_list :: "'x list list \<Rightarrow> error + 'x list list \<times> int"
  check_label_sequence :: "int list \<Rightarrow> error + int list \<times> int"
  check_label_sequences_list :: "int list list \<Rightarrow> error + int list list \<times> int"

subsection \<open>Emission log-probabilities with missing values\<close>

text \<open>
  \<open>lnf[observed] = rows\<close>: the rows go, in order, to the observed positions; numpy accepts
  as many rows as there are observed positions, or one row for all of them.
  \<open>lnf[~observed] = 0.0\<close>: the other positions get a row of zeros.
\<close>

fun scatter_rows :: "bool list \<Rightarrow> 'v list \<Rightarrow> 'v \<Rightarrow> 'v list" where
  "scatter_rows [] rows z = []"
| "scatter_rows (False # obs) rows z = z # scatter_rows obs rows z"
| "scatter_rows (True # obs) rows z = hd rows # scatter_rows obs (tl rows) z"

definition emission_log_proba_with_nan_support ::
  "('a, 'x) emission_ops \<Rightarrow> 'a hmm_scheme \<Rightarrow> 'x list \<Rightarrow> error + data_t list list"
where
  "emission_log_proba_with_nan_support E h X =
     (if \<not> missing_values h then emission_log_proba E h X
      else
        let observed = map (\<lambda>x. \<not> sample_has_nan E x) X;
            n_observed = length (filter id observed)
        in bind_err (emission_log_proba E h (map snd (filter fst (zip observed X))))
             (\<lambda>rows.
                if length rows = n_observed
                then Inr (scatter_rows observed rows (replicate (n_states h) (Fin 0)))
                else if length rows = 1
                then Inr (scatter_rows observed (replicate n_observed (rows ! 0))
                            (replicate (n_states h) (Fin 0)))
                else Inl ValueError))"

subsection \<open>E-step\<close>

text \<open>
  \<open>e_step\<close> fills the four buffers of one sequence. Its scratch array \<open>tmp\<close> comes from
  \<open>np.empty\<close>: it holds \<open>junk\<close>, whatever that is, until \<open>forward\<close> writes it.
\<close>

definition np_empty :: "data_t \<Rightarrow> nat \<Rightarrow> data_t list" where
  "np_empty junk n = replicate n junk"

definition e_step_xi0 ::
  "'a hmm_scheme \<Rightarrow> data_t list list \<Rightarrow> data_t list list \<Rightarrow> data_t
     \<Rightarrow> data_t list list list \<Rightarrow> data_t list list list"
where
  "e_step_xi0 h lnf ln_beta lnP_f ln_xi =
     fold (\<lambda>i. fold (\<lambda>j x. upd3 x 0 i j
                   (ln_initial_probs h ! i + lnf ! 0 ! j + ln_beta ! 0 ! j - lnP_f))
                 [0..<n_states h])
       [0..<n_states h] ln_xi"

definition e_step_xi ::
  "'a hmm_scheme \<Rightarrow> data_t list list \<Rightarrow> data_t list list \<Rightarrow> data_t list list \<Rightarrow> data_t
     \<Rightarrow> nat \<Rightarrow> nat \<Rightarrow> data_t list list list \<Rightarrow> data_t list list list"
where
  "e_step_xi h lnf ln_alpha ln_beta lnP_f sequence_id n_samples ln_xi =
     fold (\<lambda>t. let ln_phi = compute_ln_phi h sequence_id t in
             fold (\<lambda>i. fold (\<lambda>j x. upd3 x t i j
                           (ln_alpha ! (t - 1) ! i + ln_phi ! i ! j + lnf ! t ! j
                              + ln_beta ! t ! j - lnP_f))
                         [0..<n_states h])
               [0..<n_states h])
       [1..<n_samples] ln_xi"

definition e_step_gamma ::
  "'a hmm_scheme \<Rightarrow> data_t list list \<Rightarrow> data_t list list \<Rightarrow> data_t \<Rightarrow> nat
     \<Rightarrow> data_t list list \<Rightarrow> data_t list list"
where
  "e_step_gamma h ln_alpha ln_beta lnP_f n_samples ln_gamma =
     fold (\<lambda>t. fold (\<lambda>i g. upd2 g t i (ln_alpha ! t ! i + ln_beta ! t ! i - lnP_f))
                 [0..<n_states h])
       [0..<n_samples] ln_gamma"

text \<open>
  The result is the forward log-likelihood with the four buffers as the call leaves them.
  A sequence without rows, or an emission matrix that has not the shape of the buffers,
  takes the loops outside the arrays.
\<close>

definition e_step ::
  "libm \<Rightarrow> data_t \<Rightarrow> 'a hmm_scheme \<Rightarrow> data_t list list \<Rightarrow> data_t list list \<Rightarrow> data_t list list
     \<Rightarrow> data_t list list \<Rightarrow> data_t list list list \<Rightarrow> nat
     \<Rightarrow> error + data_t \<times> data_t list list \<times> data_t list list \<times> data_t list list \<times> data_t list list list"
where
  "e_step M junk h lnf ln_alpha ln_beta ln_gamma ln_xi sequence_id =
     (let n_samples = length ln_alpha in
      if n_samples = 0 \<or> \<not> shaped n_samples (n_states h) lnf then Inl OutOfBounds
      else
        let tmp = np_empty junk (n_states h);
            f = forward M h lnf ln_alpha tmp sequence_id;
            lnP_f = fst f;
            ln_alpha = fst (snd f);
            b = backward M h lnf ln_beta (snd (snd f)) sequence_id;
            ln_beta = fst (snd b);
            ln_xi = e_step_xi0 h lnf ln_beta lnP_f ln_xi;
            ln_xi = e_step_xi h lnf ln_alpha ln_beta lnP_f sequence_id n_samples ln_xi;
            ln_gamma = e_step_gamma h ln_alpha ln_beta lnP_f n_samples ln_gamma
        in Inr (lnP_f, ln_alpha, ln_beta, ln_gamma, ln_xi))"

subsection \<open>Labels\<close>

text \<open>
  \<open>indices = np.where(y >= 0)[0]; gamma[indices, :] = 0.; gamma[indices, y[indices]] = 1.\<close>:
  each labelled row of \<open>gamma\<close> becomes the indicator of its label. A labelled position
  beyond the rows of \<open>gamma\<close>, or a label that is not a state, raises \<open>IndexError\<close>.
\<close>

definition one_hot :: "nat \<Rightarrow> nat \<Rightarrow> data_t list" where
  "one_hot n c = map (\<lambda>i. if i = c then Fin 1 else Fin 0) [0..<n]"

definition apply_labels :: "int list \<Rightarrow> data_t list list \<Rightarrow> error + data_t list list" where
  "apply_labels y gamma =
     (let indices = filter (\<lambda>t. 0 \<le> y ! t) [0..<length y] in
      if \<exists>t \<in> set indices. length gamma \<le> t then Inl IndexError
      else if \<exists>t \<in> set indices. length (gamma ! t) \<le> nat (y ! t) then Inl IndexError
      else Inr (fold (\<lambda>t g. g[t := one_hot (length (g ! t)) (nat (y ! t))]) indices gamma))"

subsection \<open>Log-likelihood, decoding, scoring\<close>

definition np_zeros2 :: "nat \<Rightarrow> nat \<Rightarrow> data_t list list" where
  "np_zeros2 n m = replicate n (replicate m (Fin 0))"

definition np_zeros3 :: "nat \<Rightarrow> nat \<Rightarrow> nat \<Rightarrow> data_t list list list" where
  "np_zeros3 n m k = replicate n (replicate m (replicate k (Fin 0)))"

definition log_likelihood ::
  "libm \<Rightarrow> data_t \<Rightarrow> ('a, 'x) emission_ops \<Rightarrow> 'a hmm_scheme \<Rightarrow> 'x list \<Rightarrow> int list option
     \<Rightarrow> error + data_t \<times> data_t list list"
where
  "log_likelihood M junk E h X y =
     (let n_samples = length X in
      bind_err (emission_log_proba_with_nan_support E h X) (\<lambda>lnf.
      bind_err (e_step M junk h lnf
                  (np_zeros2 n_samples (n_states h)) (np_zeros2 n_samples (n_states h))
                  (np_zeros2 n_samples (n_states h))
                  (np_zeros3 n_samples (n_states h) (n_states h)) 0) (\<lambda>r.
      let lnP = fst r;
          ln_gamma = fst (snd (snd (snd r)));
          gamma = eexp2d M ln_gamma
      in bind_err (case y of None \<Rightarrow> Inr gamma | Some y \<Rightarrow> apply_labels y gamma) (\<lambda>gamma.
         Inr (lnP, gamma)))))"

text \<open>
  \<open>np.argmax\<close> of one row: the first largest entry, a NaN counting as largest; an empty
  row raises \<open>ValueError\<close>.
\<close>

fun argmax_from :: "data_t \<Rightarrow> nat \<Rightarrow> nat \<Rightarrow> data_t list \<Rightarrow> nat" where
  "argmax_from mp best i [] = best"
| "argmax_from mp best i (x # xs) =
     (if isnan mp then best
      else if \<not> x \<le> mp then argmax_from x i (Suc i) xs
      else argmax_from mp best (Suc i) xs)"

definition argmax :: "data_t list \<Rightarrow> error + nat" where
  "argmax row = (case row of [] \<Rightarrow> Inl ValueError | x # xs \<Rightarrow> Inr (argmax_from x 0 1 xs))"

text \<open>The argument of \<open>decode\<close> and \<open>score\<close> is a list of sequences or one sequence.\<close>

datatype 'v one_or_many = Single 'v | Many "'v list"

text \<open>What \<open>decode\<close> returns: one array of states, or a list of them.\<close>

datatype decoded = One "nat list" | Several "nat list list"

definition checked_sequences :: "'x checks \<Rightarrow> 'x list one_or_many \<Rightarrow> error + 'x list list" where
  "checked_sequences C X =
     (case X of
        Many X_s \<Rightarrow> bind_err (check_hmm_sequences_list C X_s) (\<lambda>r. Inr (fst r))
      | Single X \<Rightarrow> bind_err (check_hmm_sequence C X) (\<lambda>r. Inr [fst r]))"

definition checked_labels :: "'x checks \<Rightarrow> int list one_or_many \<Rightarrow> error + int list list" where
  "checked_labels C y =
     (case y of
        Many Y_s \<Rightarrow> bind_err (check_label_sequences_list C Y_s) (\<lambda>r. Inr (fst r))
      | Single y \<Rightarrow> bind_err (check_label_sequence C y) (\<lambda>r. Inr [fst r]))"

text \<open>The body of the loop of \<open>decode\<close>: the states of one sequence.\<close>

definition decode_sequence ::
  "libm \<Rightarrow> data_t \<Rightarrow> ('a, 'x) emission_ops \<Rightarrow> 'a hmm_scheme \<Rightarrow> 'x list \<Rightarrow> error + nat list"
where
  "decode_sequence M junk E h X =
     bind_err (log_likelihood M junk E h X None) (\<lambda>r. map_err argmax (snd r))"

definition decode ::
  "libm \<Rightarrow> data_t \<Rightarrow> 'x checks \<Rightarrow> ('a, 'x) emission_ops \<Rightarrow> 'a hmm_scheme \<Rightarrow> 'x list one_or_many
     \<Rightarrow> error + decoded"
where
  "decode M junk C E h X =
     bind_err (checked_sequences C X) (\<lambda>X_s.
     bind_err (map_err (decode_sequence M junk E h) X_s) (\<lambda>decoded.
     if length decoded = 1 then Inr (One (decoded ! 0)) else Inr (Several decoded)))"

definition get_num_params :: "('a, 'x) emission_ops \<Rightarrow> 'a hmm_scheme \<Rightarrow> error + real" where
  "get_num_params E h =
     (if \<not> is_trained h then Inl UntrainedModelError
      else
        let n_emission_params = get_num_params_per_state E h * real (n_states h);
            n_start_params = real_of_int (int (n_states h) - 1);
            n_transition_params = real_of_int (int (n_states h) * (int (n_states h) - 1))
        in Inr (n_emission_params + n_start_params + n_transition_params))"

text \<open>
  \<open>score\<close>. The criterion is taken after \<open>criterion.strip().lower()\<close>. The arithmetic is that
  of Python floats, where a division by zero raises. Modelled from the spec: \<open>elog\<close>, which
  the module does not define, is taken to be the extended logarithm of the kernel.
\<close>

definition py_div :: "data_t \<Rightarrow> data_t \<Rightarrow> error + data_t" where
  "py_div a b = (if b = Fin 0 then Inl ZeroDivisionError else Inr (a / b))"

definition score ::
  "libm \<Rightarrow> data_t \<Rightarrow> 'x checks \<Rightarrow> ('a, 'x) emission_ops \<Rightarrow> 'a hmm_scheme \<Rightarrow> 'x list one_or_many
     \<Rightarrow> int list one_or_many option \<Rightarrow> string \<Rightarrow> error + data_t"
where
  "score M junk C E h X y criterion =
     bind_err (checked_sequences C X) (\<lambda>X_s.
     bind_err (case y of None \<Rightarrow> Inr None
               | Some y \<Rightarrow> bind_err (checked_labels C y) (\<lambda>Y_s. Inr (Some Y_s))) (\<lambda>Y_s.
     bind_err (case X_s of [] \<Rightarrow> Inl IndexError | X # _ \<Rightarrow> Inr (length X)) (\<lambda>n.
     bind_err (case Y_s of
                 Some Y_s \<Rightarrow> map_err (\<lambda>p. log_likelihood M junk E h (fst p) (Some (snd p))) (zip X_s Y_s)
               | None \<Rightarrow> map_err (\<lambda>X. log_likelihood M junk E h X None) X_s) (\<lambda>rs.
     let lnP = fold (\<lambda>r s. s + fst r) rs (Fin 0) in
     bind_err (get_num_params E h) (\<lambda>k.
     if criterion = ''aic'' then Inr (Fin 2 * Fin k - Fin 2 * lnP)
     else if criterion = ''aicc'' then
       bind_err (py_div (Fin 2 * Fin k * (Fin k + Fin 1)) (Fin (real n) - Fin k - Fin 1)) (\<lambda>c.
       Inr (Fin 2 * Fin k - Fin 2 * lnP + c))
     else if criterion = ''bic'' then Inr (Fin k * elog M (Fin (real n)) - lnP)
     else if criterion = ''negloglh'' then Inr (- lnP)
     else Inl UnknownCriterion)))))"

subsection \<open>Baum-Welch\<close>

text \<open>
  \<open>np.nan_to_num\<close>: NaN becomes zero, an infinity the largest finite double of its sign.
\<close>

definition DBL_MAX :: real where
  "DBL_MAX = 2 ^ 1024 - 2 ^ 971"

definition nan_to_num :: "data_t \<Rightarrow> data_t" where
  "nan_to_num x =
     (case x of Fin r \<Rightarrow> Fin r | PInf \<Rightarrow> Fin DBL_MAX | MInf \<Rightarrow> Fin (- DBL_MAX) | NaN \<Rightarrow> Fin 0)"

definition np_sum :: "data_t list \<Rightarrow> data_t" where
  "np_sum xs = fold (\<lambda>x s. s + x) xs (Fin 0)"

definition np_dot :: "data_t list \<Rightarrow> data_t list \<Rightarrow> data_t" where
  "np_dot xs ys = np_sum (map2 (*) xs ys)"

text \<open>
  \<open><long>eps\<close>: the Python number is truncated towards zero to a C \<open>long\<close> of 64 bits; a
  number outside its range raises \<open>OverflowError\<close>.
\<close>

definition long_cast :: "real \<Rightarrow> error + int" where
  "long_cast x =
     (let n = (if 0 \<le> x then \<lfloor>x\<rfloor> else \<lceil>x\<rceil>)
      in if - (2 ^ 63) \<le> n \<and> n < 2 ^ 63 then Inr n else Inl OverflowError)"

text \<open>The four buffers of one sequence: \<open>ln_alpha\<close>, \<open>ln_beta\<close>, \<open>ln_gamma\<close>, \<open>ln_xi\<close>.\<close>

type_synonym buffers =
  "data_t list list \<times> data_t list list \<times> data_t list list \<times> data_t list list list"

definition create_buffers :: "data_t \<Rightarrow> nat \<Rightarrow> 'x list \<Rightarrow> buffers" where
  "create_buffers junk n X =
     (replicate (length X) (replicate n junk),
      replicate (length X) (replicate n junk),
      replicate (length X) (replicate n junk),
      replicate (length X) (replicate n (replicate n junk)))"

text \<open>
  The E-step on each sequence: its emission matrix, its log-likelihood and its buffers.
\<close>

definition bw_e_step ::
  "libm \<Rightarrow> data_t \<Rightarrow> ('a, 'x) emission_ops \<Rightarrow> 'a hmm_scheme \<Rightarrow> 'x list list \<Rightarrow> buffers list
     \<Rightarrow> error + (data_t list list \<times> data_t \<times> buffers) list"
where
  "bw_e_step M junk E h X_s bufs =
     map_err (\<lambda>p.
         bind_err (emission_log_proba_with_nan_support E h (X_s ! p)) (\<lambda>lnf.
         bind_err (e_step M junk h lnf (fst (bufs ! p)) (fst (snd (bufs ! p)))
                     (fst (snd (snd (bufs ! p)))) (snd (snd (snd (bufs ! p)))) p) (\<lambda>r.
         Inr (lnf, r))))
       [0..<length X_s]"

text \<open>State start probabilities: the first rows of the posteriors, summed and normalised.\<close>

definition update_initial_probs ::
  "libm \<Rightarrow> 'a hmm_scheme \<Rightarrow> data_t list list list \<Rightarrow> 'a hmm_scheme"
where
  "update_initial_probs M h gamma_s =
     (let ip = map (\<lambda>v. Fin 0) (initial_probs h);
          ip = fold (\<lambda>gamma ip. map2 (+) ip (gamma ! 0)) gamma_s ip;
          total = np_sum ip;
          ip = map (\<lambda>v. v / total) ip
      in h\<lparr>initial_probs := ip, ln_initial_probs := elog1d M ip\<rparr>)"

text \<open>
  State transition probabilities. \<open>num\<close> is \<open>ln_xi_s[p][1:, k, l]\<close> and \<open>den\<close> is
  \<open>ln_gamma_s[p][:-1, k]\<close>, each concatenated over the sequences \<open>p\<close>.
\<close>

definition transition_entry ::
  "libm \<Rightarrow> 'a hmm_scheme \<Rightarrow> data_t list list list list \<Rightarrow> data_t list list list \<Rightarrow> nat \<Rightarrow> nat \<Rightarrow> data_t"
where
  "transition_entry M h ln_xi_s ln_gamma_s k l =
     (if transition_mask h ! k ! l
      then
        let num = concat (map (\<lambda>ln_xi. map (\<lambda>m. m ! k ! l) (tl ln_xi)) ln_xi_s);
            den = concat (map (\<lambda>ln_gamma. map (\<lambda>r. r ! k) (butlast ln_gamma)) ln_gamma_s)
        in elogsum M num - elogsum M den
      else LOG_ZERO)"

definition update_transition_probs ::
  "libm \<Rightarrow> 'a hmm_scheme \<Rightarrow> data_t list list list list \<Rightarrow> data_t list list list \<Rightarrow> 'a hmm_scheme"
where
  "update_transition_probs M h ln_xi_s ln_gamma_s =
     (let lt = fold (\<lambda>k. fold (\<lambda>l a. upd2 a k l (transition_entry M h ln_xi_s ln_gamma_s k l))
                          [0..<n_states h])
                 [0..<n_states h] (ln_transition_probs h);
          lt = map (map nan_to_num) lt;
          tp = eexp2d M lt;
          tp = map (map (\<lambda>v. if isnan v then ZERO else v)) tp;
          tp = map (\<lambda>row. map (\<lambda>v. v / np_sum row) row) tp
      in h\<lparr>ln_transition_probs := lt, transition_probs := tp\<rparr>)"

text \<open>
  The state of the loop: the model, \<open>old_F\<close>, the buffers, and the lines printed so far
  (iteration and log-likelihood).
\<close>

type_synonym 'a bw_state = "'a hmm_scheme \<times> data_t \<times> buffers list \<times> (nat \<times> data_t) list"

text \<open>
  One pass of the loop of \<open>baum_welch\<close>. The result says whether the loop is left by
  \<open>break\<close>. \<open>np.concatenate\<close> raises \<open>ValueError\<close> on an empty list of sequences.
\<close>

definition baum_welch_iteration ::
  "libm \<Rightarrow> data_t \<Rightarrow> ('a, 'x) emission_ops \<Rightarrow> 'x list list \<Rightarrow> int list list option \<Rightarrow> real
     \<Rightarrow> nat \<Rightarrow> 'a bw_state \<Rightarrow> error + bool \<times> 'a bw_state"
where
  "baum_welch_iteration M junk E X_s Y_s eps i st =
     (let h = fst st; old_F = fst (snd st); bufs = fst (snd (snd st));
          printed = snd (snd (snd st))
      in
      bind_err (bw_e_step M junk E h X_s bufs) (\<lambda>rs.
      let lnP_s = map (\<lambda>r. fst (snd r)) rs;
          bufs = map (\<lambda>r. snd (snd r)) rs;
          lnP = np_sum lnP_s;
          F = - lnP;
          dF = F - old_F
      in
      bind_err (long_cast eps) (\<lambda>threshold.
      if dabs dF < Fin (real_of_int threshold) then Inr (True, (h, old_F, bufs, printed))
      else
        let old_F = F;
            printed = printed @ [(i, lnP)];
            ln_gamma_s = map (\<lambda>b. fst (snd (snd b))) bufs;
            ln_xi_s = map (\<lambda>b. snd (snd (snd b))) bufs;
            gamma_s = map (eexp2d M) ln_gamma_s
        in
        bind_err (case Y_s of
                    None \<Rightarrow> Inr gamma_s
                  | Some Y_s \<Rightarrow> map_err (\<lambda>p. apply_labels (Y_s ! p) (gamma_s ! p))
                                  [0..<length X_s]) (\<lambda>gamma_s.
        let h = update_initial_probs M h gamma_s in
        if X_s = [] then Inl ValueError
        else
          let h = update_transition_probs M h ln_xi_s ln_gamma_s;
              X = concat X_s;
              gamma = concat gamma_s;
              h = update_emission_params E h X gamma
          in Inr (False, (h, old_F, bufs, printed))))))"

fun baum_welch_loop ::
  "(nat \<Rightarrow> 'a bw_state \<Rightarrow> error + bool \<times> 'a bw_state) \<Rightarrow> nat list \<Rightarrow> 'a bw_state
     \<Rightarrow> error + 'a bw_state"
where
  "baum_welch_loop body [] st = Inr st"
| "baum_welch_loop body (i # is) st =
     bind_err (body i st) (\<lambda>r. if fst r then Inr (snd r) else baum_welch_loop body is (snd r))"

text \<open>
  \<open>baum_welch\<close> returns the model as the loop leaves it, and what it printed. Labels for
  fewer sequences than there are raise \<open>IndexError\<close> before the loop.
\<close>

definition baum_welch ::
  "libm \<Rightarrow> data_t \<Rightarrow> ('a, 'x) emission_ops \<Rightarrow> 'a hmm_scheme \<Rightarrow> 'x list list \<Rightarrow> int list list option
     \<Rightarrow> nat \<Rightarrow> real \<Rightarrow> error + 'a hmm_scheme \<times> (nat \<times> data_t) list"
where
  "baum_welch M junk E h X_s Y_s max_n_iter eps =
     (if (case Y_s of None \<Rightarrow> False | Some Y_s \<Rightarrow> length Y_s < length X_s) then Inl IndexError
      else
        bind_err (baum_welch_loop (baum_welch_iteration M junk E X_s Y_s eps) [0..<max_n_iter]
                    (h, Fin (10 ^ 20), map (create_buffers junk (n_states h)) X_s, []))
          (\<lambda>st. Inr (fst st, snd (snd (snd st)))))"

definition fit ::
  "libm \<Rightarrow> data_t \<Rightarrow> 'x checks \<Rightarrow> ('a, 'x) emission_ops \<Rightarrow> 'a hmm_scheme \<Rightarrow> 'x list list
     \<Rightarrow> int list list option \<Rightarrow> nat \<Rightarrow> real \<Rightarrow> error + 'a hmm_scheme \<times> (nat \<times> data_t) list"
where
  "fit M junk C E h X_s y max_n_iter eps =
     bind_err (check_hmm_sequences_list C X_s) (\<lambda>r.
     let X_s = fst r; h = h\<lparr>n_features := snd r\<rparr> in
     bind_err (case y of None \<Rightarrow> Inr None
               | Some Y_s \<Rightarrow> bind_err (check_label_sequences_list C Y_s) (\<lambda>r. Inr (Some (fst r)))) (\<lambda>Y_s.
     bind_err (estimate_params E h
                 (if \<not> missing_values h then X_s
                  else map (filter (\<lambda>x. \<not> sample_has_nan E x)) X_s)) (\<lambda>h.
     baum_welch M junk E h X_s Y_s max_n_iter eps)))"

text \<open>The setters of the properties \<open>pi\<close> and \<open>a\<close>.\<close>

definition set_pi :: "libm \<Rightarrow> 'a hmm_scheme \<Rightarrow> data_t list \<Rightarrow> 'a hmm_scheme" where
  "set_pi M h arr = h\<lparr>initial_probs := arr, ln_initial_probs := elog1d M arr\<rparr>"

definition set_a :: "libm \<Rightarrow> 'a hmm_scheme \<Rightarrow> data_t list list \<Rightarrow> 'a hmm_scheme" where
  "set_a M h arr = h\<lparr>transition_probs := arr, ln_transition_probs := elog2d M arr\<rparr>"

section \<open>The subclass \<open>GHMM\<close>\<close>

record ghmm = hmm +
  mu :: "data_t list list"
  sigma :: "data_t list list list"

definition nan_to_zero :: "data_t \<Rightarrow> data_t" where
  "nan_to_zero v = (if isnan v then ZERO else v)"

definition ghmm_nan_to_zeros :: "ghmm \<Rightarrow> ghmm" where
  "ghmm_nan_to_zeros h =
     h\<lparr>mu := map (map nan_to_zero) (mu h), sigma := map (map (map nan_to_zero)) (sigma h)\<rparr>"

text \<open>\<open>X.shape[1]\<close>; an array without rows is taken to have no columns.\<close>

definition n_cols :: "'v list list \<Rightarrow> nat" where
  "n_cols X = (case X of [] \<Rightarrow> 0 | x # xs \<Rightarrow> length x)"

text \<open>
  The pass of the loop of \<open>update_emission_params\<close> for state \<open>k\<close>: the covariance is the
  sum over the samples of \<open>diff[t, j] * diff[t, l] * posteriors[t]\<close>, with \<open>diff\<close> taken
  from the mean before this pass; the mean is \<open>np.dot(posteriors, X) * norm\<close>.
\<close>

definition ghmm_update_state :: "data_t list list \<Rightarrow> data_t list list \<Rightarrow> nat \<Rightarrow> ghmm \<Rightarrow> ghmm" where
  "ghmm_update_state X gamma k h =
     (let n_samples = length X;
          n_features = n_cols X;
          posteriors = map (\<lambda>r. r ! k) gamma;
          diff = map (\<lambda>x. map2 (-) x (mu h ! k)) X;
          sg = fold (\<lambda>j. fold (\<lambda>l s.
                   upd3 s k j l
                     (fold (\<lambda>t acc. acc + diff ! t ! j * diff ! t ! l * posteriors ! t)
                        [0..<n_samples] (Fin 0)))
                 [0..<n_features])
                 [0..<n_features] (sigma h);
          post_sum = np_sum posteriors;
          norm = (if neq post_sum (Fin 0) then Fin 1 / post_sum else Fin 1);
          temp = map (\<lambda>j. np_dot posteriors (map (\<lambda>x. x ! j) X) * norm) [0..<n_features];
          m = fold (\<lambda>j m. upd2 m k j (temp ! j)) [0..<n_features] (mu h)
      in h\<lparr>mu := m, sigma := sg\<rparr>)"

definition ghmm_update_emission_params :: "ghmm \<Rightarrow> data_t list list \<Rightarrow> data_t list list \<Rightarrow> ghmm" where
  "ghmm_update_emission_params h X gamma =
     ghmm_nan_to_zeros (fold (ghmm_update_state X gamma) [0..<n_states h] (ghmm_nan_to_zeros h))"

text \<open>
  \<open>gaussian_log_proba\<close> of \<open>archmm.stats\<close> is not among the sources and is a parameter
  \<open>glp\<close>: from the samples, a mean and a covariance it gives one value for each sample.
  \<open>lnf[:, k] = glp(X, mu[k], sigma[k])\<close> fills column \<open>k\<close>; numpy accepts one value for each
  sample, or a single value for all of them.
\<close>

definition ghmm_emission_log_proba ::
  "(data_t list list \<Rightarrow> data_t list \<Rightarrow> data_t list list \<Rightarrow> data_t list)
     \<Rightarrow> ghmm \<Rightarrow> data_t list list \<Rightarrow> error + data_t list list"
where
  "ghmm_emission_log_proba glp h X =
     (let n_samples = length X;
          n_states = length (mu h);
          cols = map (\<lambda>k. glp X (mu h ! k) (sigma h ! k)) [0..<n_states]
      in if \<exists>c \<in> set cols. length c \<noteq> n_samples \<and> length c \<noteq> 1 then Inl ValueError
         else Inr (map (\<lambda>t. map (\<lambda>c. if length c = n_samples then c ! t else c ! 0) cols)
                     [0..<n_samples]))"

definition ghmm_get_num_params_per_state :: "ghmm \<Rightarrow> real" where
  "ghmm_get_num_params_per_state h =
     (let n_mu = real_of_int (n_features h);
          n_sigma = real_of_int (n_features h) * (real_of_int (n_features h) + 1) / 2
      in n_mu + n_sigma)"

text \<open>
  \<open>estimate_params\<close> calls the clustering of \<open>archmm.estimation\<close> and draws random
  numbers: it is a parameter \<open>est\<close>.
\<close>

definition ghmm_ops ::
  "(data_t list list \<Rightarrow> data_t list \<Rightarrow> data_t list list \<Rightarrow> data_t list)
     \<Rightarrow> (ghmm \<Rightarrow> data_t list list list \<Rightarrow> error + ghmm)
     \<Rightarrow> (unit ghmm_ext, data_t list) emission_ops"
where
  "ghmm_ops glp est =
     \<lparr>emission_log_proba = ghmm_emission_log_proba glp,
      update_emission_params = ghmm_update_emission_params,
      estimate_params = est,
      get_num_params_per_state = ghmm_get_num_params_per_state,
      sample_has_nan = (\<lambda>x. \<exists>v \<in> set x. isnan v)\<rparr>"

section \<open>The subclass \<open>MHMM\<close>\<close>

record mhmm = hmm +
  n_unique :: nat
  proba :: "data_t list list"

text \<open>
  \<open>lnf[t, k] = log(proba[k, X[t]])\<close>, with the samples as integers; a sample that is not
  a column of \<open>proba\<close> is read outside it.
\<close>

definition mhmm_emission_log_proba :: "libm \<Rightarrow> mhmm \<Rightarrow> int list \<Rightarrow> error + data_t list list" where
  "mhmm_emission_log_proba M h X =
     (if \<exists>x \<in> set X. x < 0 \<or> int (n_unique h) \<le> x then Inl OutOfBounds
      else Inr (map (\<lambda>x. map (\<lambda>k. libc_log M (proba h ! k ! nat x)) [0..<n_states h]) X))"

definition mhmm_nan_to_zeros :: "mhmm \<Rightarrow> mhmm" where
  "mhmm_nan_to_zeros h = h\<lparr>proba := map (map nan_to_zero) (proba h)\<rparr>"

definition mhmm_update_state :: "int list \<Rightarrow> data_t list list \<Rightarrow> nat \<Rightarrow> mhmm \<Rightarrow> mhmm" where
  "mhmm_update_state X gamma k h =
     (let posteriors = map (\<lambda>r. r ! k) gamma;
          post_sum = np_sum posteriors;
          norm = (if neq post_sum (Fin 0) then Fin 1 / post_sum else Fin 1);
          pr = fold (\<lambda>i pr. upd2 pr k i
                  (np_dot posteriors (map (\<lambda>x. if x = int i then Fin 1 else Fin 0) X) * norm))
                 [0..<n_unique h] (proba h)
      in h\<lparr>proba := pr\<rparr>)"

definition mhmm_update_emission_params :: "mhmm \<Rightarrow> int list \<Rightarrow> data_t list list \<Rightarrow> mhmm" where
  "mhmm_update_emission_params h X gamma =
     mhmm_nan_to_zeros (fold (mhmm_update_state X gamma) [0..<n_states h] (mhmm_nan_to_zeros h))"

definition mhmm_ops ::
  "libm \<Rightarrow> (mhmm \<Rightarrow> int list list \<Rightarrow> error + mhmm) \<Rightarrow> (unit mhmm_ext, int) emission_ops"
where
  "mhmm_ops M est =
     \<lparr>emission_log_proba = mhmm_emission_log_proba M,
      update_emission_params = mhmm_update_emission_params,
      estimate_params = est,
      get_num_params_per_state = (\<lambda>h. real_of_int (int (n_unique h) - 1)),
      sample_has_nan = (\<lambda>x. False)\<rparr>"

section \<open>Arithmetic on doubles\<close>

text \<open>
  The operations of \<open>data_t\<close> give the exact sum, difference, product and quotient of
  finite values. A C double has a significand of 53 bits and an exponent from \<open>-1022\<close> to
  \<open>1023\<close>, and an operation of the source returns the double nearest to the exact result:
  a tie goes to the even significand, and a result beyond the largest finite double is an
  infinity. \<open>round_even\<close> rounds a real to the nearest integer in this way, \<open>ulp x\<close> is
  the distance between neighbouring doubles at \<open>x\<close>, and \<open>round_double x\<close> is the double
  nearest to \<open>x\<close>.
\<close>

definition round_even :: "real \<Rightarrow> int" where
  "round_even x =
     (let f = \<lfloor>x\<rfloor>; d = x - real_of_int f
      in if d < 1 / 2 then f else if 1 / 2 < d then f + 1 else if even f then f else f + 1)"

definition ulp :: "real \<Rightarrow> real" where
  "ulp x = 2 powr (real_of_int (max \<lfloor>log 2 \<bar>x\<bar>\<rfloor> (- 1022)) - 52)"

definition round_double :: "real \<Rightarrow> data_t" where
  "round_double x =
     (if x = 0 then Fin 0
      else let r = real_of_int (round_even (x / ulp x)) * ulp x
           in if DBL_MAX < r then PInf else if r < - DBL_MAX then MInf else Fin r)"

text \<open>
  \<open>fl R x\<close> rounds a finite \<open>x\<close> with the rounding function \<open>R\<close>; the infinities and NaN
  stay as they are.
\<close>

definition fl :: "(real \<Rightarrow> data_t) \<Rightarrow> data_t \<Rightarrow> data_t" where
  "fl R x = (case x of Fin r \<Rightarrow> R r | _ \<Rightarrow> x)"

text \<open>
  A math library on doubles: \<open>exp\<close> and \<open>log\<close> return the double nearest to the exact
  value, so \<open>exp\<close> overflows to infinity and underflows to zero.
\<close>

definition double_math :: libm where
  "double_math = \<lparr>exp_fin = (\<lambda>r. round_double (exp r)), log_pos = (\<lambda>r. round_double (ln r))\<rparr>"


subsection \<open>The kernel and the two passes with rounding\<close>

text \<open>
  \<open>elogsum\<close>, \<open>forward\<close> and \<open>backward\<close> once more, line by line, with the result of
  every addition and subtraction of the source rounded by \<open>R\<close>. With \<open>R = Fin\<close>, which
  rounds nothing, they are the definitions of the sections above (\<open>elogsum_rnd_exact\<close>,
  \<open>forward_rnd_exact\<close>, \<open>backward_rnd_exact\<close>); with \<open>R = round_double\<close> they compute on
  doubles as the compiled code does.
\<close>

definition elogsum_rnd :: "(real \<Rightarrow> data_t) \<Rightarrow> libm \<Rightarrow> data_t list \<Rightarrow> data_t" where
  "elogsum_rnd R M vec =
     (let offset = vec_max vec in
      if isinf offset then - INF_const
      else fl R (libc_log M (fold (\<lambda>v s. fl R (s + libc_exp M (fl R (v - offset)))) vec (Fin 0))
                 + offset))"









section \<open>Notions used in the statements\<close>









text \<open>
  A sequence is not empty and its emission matrix has one row for each sample and one
  column for each state.
\<close>

definition well_emitted :: "('a, 'x) emission_ops \<Rightarrow> 'a hmm_scheme \<Rightarrow> 'x list \<Rightarrow> bool" where
  "well_emitted E h X \<longleftrightarrow>
     X \<noteq> [] \<and> (\<exists>lnf. emission_log_proba_with_nan_support E h X = Inr lnf
                 \<and> shaped (length X) (n_states h) lnf)"

text \<open>
  The factor \<open>norm\<close> of \<open>update_emission_params\<close> for state \<open>k\<close>, and the entry \<open>mu[k, j]\<close>
  that the update leaves.
\<close>

definition ghmm_norm :: "data_t list list \<Rightarrow> nat \<Rightarrow> data_t" where
  "ghmm_norm gamma k =
     (let post_sum = np_sum (map (\<lambda>r. r ! k) gamma)
      in if neq post_sum (Fin 0) then Fin 1 / post_sum else Fin 1)"

definition ghmm_new_mean :: "data_t list list \<Rightarrow> data_t list list \<Rightarrow> nat \<Rightarrow> nat \<Rightarrow> data_t" where
  "ghmm_new_mean X gamma k j =
     nan_to_zero (np_dot (map (\<lambda>r. r ! k) gamma) (map (\<lambda>x. x ! j) X) * ghmm_norm gamma k)"





section \<open>Concrete instances\<close>



text \<open>
  An instance of the parameter \<open>glp\<close>: minus the squared distance of the first feature to
  the mean.
\<close>

definition sq_dist_log_proba :: "data_t list list \<Rightarrow> data_t list \<Rightarrow> data_t list list \<Rightarrow> data_t list" where
  "sq_dist_log_proba X m s = map (\<lambda>x. - ((x ! 0 - m ! 0) * (x ! 0 - m ! 0))) X"

text \<open>An instance of the parameter \<open>est\<close> that leaves the model as it is.\<close>

definition keep_params :: "'a hmm_scheme \<Rightarrow> 'x list list \<Rightarrow> error + 'a hmm_scheme" where
  "keep_params h X_s = Inr h"

text \<open>
  A Gaussian model on one feature with missing values allowed, with means \<open>0\<close> and \<open>5\<close> and
  variance \<open>1\<close>.
\<close>

definition ghmm2 :: ghmm where
  "ghmm2 =
     \<lparr>n_states = 2, n_features = 1, missing_values = True,
      transition_mask = [[True, True], [True, True]],
      ln_initial_probs = [Fin 0, MInf],
      ln_transition_probs = [[Fin (- ln 2), Fin (- ln 2)], [MInf, Fin 0]],
      initial_probs = [Fin 1, Fin 0],
      transition_probs = [[Fin (1 / 2), Fin (1 / 2)], [Fin 0, Fin 1]],
      mu = [[Fin 0], [Fin 5]],
      sigma = [[[Fin 1]], [[Fin 1]]]\<rparr>"

text \<open>A sequence of three samples, the second one missing.\<close>

definition gaps3 :: "data_t list list" where
  "gaps3 = [[Fin 1], [NaN], [Fin 4]]"

text \<open>Input checks that accept every input as it is.\<close>

definition accept_all :: "'x checks" where
  "accept_all =
     \<lparr>check_hmm_sequence = (\<lambda>X. Inr (X, 1)),
      check_hmm_sequences_list = (\<lambda>X_s. Inr (X_s, 1)),
      check_label_sequence = (\<lambda>y. Inr (y, 1)),
      check_label_sequences_list = (\<lambda>Y_s. Inr (Y_s, 1))\<rparr>"

text \<open>
  A multinomial model with two states on the single symbol \<open>0\<close>: it starts in state \<open>0\<close>
  and every transition has probability \<open>1/2\<close>. \<open>fit\<close> has not run on it, so \<open>n_features\<close>
  is unset.
\<close>

definition mhmm2 :: mhmm where
  "mhmm2 =
     \<lparr>n_states = 2, n_features = - 1, missing_values = False,
      transition_mask = [[True, True], [True, True]],
      ln_initial_probs = [Fin 0, MInf],
      ln_transition_probs = [[Fin (- ln 2), Fin (- ln 2)], [Fin (- ln 2), Fin (- ln 2)]],
      initial_probs = [Fin 1, Fin 0],
      transition_probs = [[Fin (1 / 2), Fin (1 / 2)], [Fin (1 / 2), Fin (1 / 2)]],
      n_unique = 1, proba = [[Fin 1], [Fin 1]]\<rparr>"


text \<open>A multinomial model with a single state on the single symbol \<open>0\<close>.\<close>

definition mhmm1 :: mhmm where
  "mhmm1 =
     \<lparr>n_states = 1, n_features = 1, missing_values = False,
      transition_mask = [[True]],
      ln_initial_probs = [Fin 0],
      ln_transition_probs = [[Fin 0]],
      initial_probs = [Fin 1],
      transition_probs = [[Fin 1]],
      n_unique = 1, proba = [[Fin 1]]\<rparr>"

text \<open>The model \<open>mhmm2\<close> after one iteration of Baum-Welch on the sequence \<open>[0]\<close>.\<close>

definition mhmm2_after :: mhmm where
  "mhmm2_after =
     \<lparr>n_states = 2, n_features = - 1, missing_values = False,
      transition_mask = [[True, True], [True, True]],
      ln_initial_probs = [Fin 0, MInf],
      ln_transition_probs = [[Fin 0, Fin 0], [Fin 0, Fin 0]],
      initial_probs = [Fin 1, Fin 0],
      transition_probs = [[Fin (1 / 2), Fin (1 / 2)], [Fin (1 / 2), Fin (1 / 2)]],
      n_unique = 1, proba = [[Fin 1], [Fin 0]]\<rparr>"





section \<open>Rounding to the nearest double\<close>

lemma ulp_binade:
  assumes "2 ^ k \<le> \<bar>x\<bar>" and "\<bar>x\<bar> < 2 ^ (Suc k)"
  shows "ulp x = 2 ^ k / 2 ^ 52"
proof -
  have pos: "0 < \<bar>x\<bar>" using assms(1) by (smt (verit) zero_less_power)
  have "\<lfloor>log 2 \<bar>x\<bar>\<rfloor> = int k"
    using assms pos by (simp add: floor_log_eq_powr_iff powr_realpow powr_add)
  then show ?thesis
    by (simp add: ulp_def powr_diff powr_realpow)
qed

lemma round_even_near:
  assumes "\<bar>y - real_of_int n\<bar> < 1 / 2"
  shows "round_even y = n"
proof (cases "real_of_int n \<le> y")
  case True
  with assms have "\<lfloor>y\<rfloor> = n" by (simp add: floor_eq_iff)
  with assms True show ?thesis by (simp add: round_even_def)
next
  case False
  with assms have f: "\<lfloor>y\<rfloor> = n - 1" by (simp add: floor_eq_iff)
  with assms False show ?thesis by (simp add: round_even_def)
qed

lemma round_double_binade:
  assumes "2 ^ k \<le> \<bar>x\<bar>" and "\<bar>x\<bar> < 2 ^ (Suc k)" and "k < 1023"
    and "\<bar>x * 2 ^ 52 / 2 ^ k - real_of_int n\<bar> < 1 / 2"
  shows "round_double x = Fin (real_of_int n * 2 ^ k / 2 ^ 52)"
proof -
  define p :: real where "p = 2 ^ k"
  define y where "y = x * 2 ^ 52 / p"
  have p: "0 < p" by (simp add: p_def)
  have u: "ulp x = p / 2 ^ 52" unfolding p_def using assms(1,2) by (rule ulp_binade)
  from assms(1) p have "0 < \<bar>x\<bar>" unfolding p_def by linarith
  then have nz: "x \<noteq> 0" by auto
  have q: "x / ulp x = y" by (simp add: u y_def)
  have near: "\<bar>y - real_of_int n\<bar> < 1 / 2" using assms(4) by (simp add: y_def p_def)
  have r: "round_even (x / ulp x) = n"
    unfolding q using near by (rule round_even_near)
  from assms(2) have "\<bar>x\<bar> < 2 * p" by (simp add: p_def)
  then have "\<bar>x\<bar> * 2 ^ 52 / p < 2 ^ 53"
    using p by (simp add: field_simps)
  then have "\<bar>y\<bar> < 2 ^ 53" using p by (simp add: abs_mult y_def)
  with near have "\<bar>real_of_int n\<bar> < 2 ^ 53 + 1 / 2" by linarith
  then have "real_of_int \<bar>n\<bar> < real_of_int (2 ^ 53 + 1)" by simp
  then have "\<bar>n\<bar> < 2 ^ 53 + 1" by (simp only: of_int_less_iff)
  then have "\<bar>n\<bar> \<le> 2 ^ 53" by simp
  then have "real_of_int \<bar>n\<bar> \<le> real_of_int (2 ^ 53)" by (simp only: of_int_le_iff)
  then have b: "\<bar>real_of_int n\<bar> \<le> 2 ^ 53" by simp
  from b have "\<bar>real_of_int n\<bar> * p \<le> 2 ^ 53 * p"
    using p by (intro mult_right_mono) simp_all
  then have "\<bar>real_of_int n\<bar> * p / 2 ^ 52 \<le> 2 * p"
    by (simp add: field_simps)
  then have "\<bar>real_of_int n * p / 2 ^ 52\<bar> \<le> 2 ^ (Suc k)"
    using p by (simp add: abs_mult p_def)
  also have "\<dots> \<le> (2 :: real) ^ 1023"
    using assms(3) by (intro power_increasing) simp_all
  also have "\<dots> \<le> DBL_MAX" by (simp add: DBL_MAX_def)
  finally have lim: "\<bar>real_of_int n * p / 2 ^ 52\<bar> \<le> DBL_MAX" .
  define v where "v = real_of_int n * ulp x"
  have v: "real_of_int (round_even (x / ulp x)) * ulp x = v"
    by (simp only: r v_def)
  have "\<bar>v\<bar> \<le> DBL_MAX"
    using lim by (simp add: v_def u)
  then have "\<not> DBL_MAX < v" "\<not> v < - DBL_MAX"
    by linarith+
  then have "round_double x = Fin v"
    unfolding round_double_def Let_def v using nz by simp
  then show ?thesis by (simp add: v_def u p_def)
qed


lemma round_double_zero: "round_double 0 = Fin 0"
  by (simp add: round_double_def)

lemma round_double_one: "round_double 1 = Fin 1"
  using round_double_binade [of 0 1 "2 ^ 52"] by simp



lemma round_even_le: "y \<le> real_of_int N \<Longrightarrow> round_even y \<le> N"
proof -
  assume y: "y \<le> real_of_int N"
  then have f: "\<lfloor>y\<rfloor> \<le> N" by (simp add: floor_le_iff)
  show ?thesis
  proof (cases "y = real_of_int N")
    case True
    then show ?thesis by (simp add: round_even_def)
  next
    case False
    with y have "y < real_of_int N" by simp
    then have "\<lfloor>y\<rfloor> < N" by (simp add: floor_less_iff)
    then show ?thesis by (simp add: round_even_def Let_def)
  qed
qed

lemma round_even_ge: "real_of_int N \<le> y \<Longrightarrow> N \<le> round_even y"
proof -
  assume "real_of_int N \<le> y"
  then have "N \<le> \<lfloor>y\<rfloor>" by (simp add: le_floor_iff)
  then show ?thesis by (simp add: round_even_def Let_def)
qed

lemma round_double_unit:
  assumes "0 \<le> x" and "x \<le> 1"
  shows "\<exists>L. round_double x = Fin L \<and> 0 \<le> L \<and> L \<le> 1"
proof (cases "x = 0")
  case True
  then show ?thesis by (simp add: round_double_def)
next
  case False
  with assms(1) have pos: "0 < x" by simp
  define e where "e = max \<lfloor>log 2 \<bar>x\<bar>\<rfloor> (- 1022)"
  define m where "m = nat (52 - e)"
  have "log 2 x \<le> 0" using pos assms(2) by simp
  then have "\<lfloor>log 2 \<bar>x\<bar>\<rfloor> \<le> 0" using pos by (simp add: floor_le_iff) 
  then have e: "e \<le> 0" by (simp add: e_def)
  then have m: "real m = 52 - real_of_int e" by (simp add: m_def)
  have u: "ulp x = 1 / 2 ^ m"
  proof -
    have "ulp x = 2 powr (- real m)" by (simp add: ulp_def e_def [symmetric] m)
    also have "\<dots> = 1 / 2 powr (real m)" by (simp add: powr_minus_divide)
    also have "\<dots> = 1 / 2 ^ m" by (simp add: powr_realpow)
    finally show ?thesis .
  qed
  define p :: real where "p = 2 ^ m"
  have p: "0 < p" by (simp add: p_def)
  have y: "x / ulp x = x * p" by (simp add: u p_def)
  define n where "n = round_even (x * p)"
  have "real_of_int 0 \<le> x * p" using pos p by simp
  then have n0: "0 \<le> n" unfolding n_def by (rule round_even_ge)
  have "x * p \<le> 1 * p" using assms(2) p by (intro mult_right_mono) simp_all
  then have "x * p \<le> real_of_int (2 ^ m)" by (simp add: p_def)
  then have n1: "n \<le> 2 ^ m" unfolding n_def by (rule round_even_le)
  define L where "L = real_of_int n / p"
  have L0: "0 \<le> L" using n0 p by (simp add: L_def)
  from n1 have "real_of_int n \<le> real_of_int (2 ^ m)" by (simp only: of_int_le_iff)
  then have "real_of_int n \<le> p" by (simp add: p_def)
  then have L1: "L \<le> 1" using p by (simp add: L_def)
  have "round_even (x / ulp x) = n"
    by (simp only: y n_def)
  then have r: "real_of_int (round_even (x / ulp x)) * ulp x = L"
    by (simp add: u L_def p_def)
  have "1 \<le> DBL_MAX" by (simp add: DBL_MAX_def)
  with L0 L1 have "\<not> DBL_MAX < L" "\<not> L < - DBL_MAX" by linarith+
  then have "round_double x = Fin L"
    unfolding round_double_def Let_def r using False by simp
  with L0 L1 show ?thesis by blast
qed

lemma round_double_absorbed:
  assumes "0 \<le> L" and "L \<le> 1"
  shows "round_double (L + 2 ^ 60) = Fin (2 ^ 60)"
proof -
  have "round_double (L + 2 ^ 60) = Fin (real_of_int (2 ^ 52) * 2 ^ 60 / 2 ^ 52)"
    using assms by (intro round_double_binade) simp_all
  then show ?thesis by simp
qed

lemma round_even_error: "\<bar>real_of_int (round_even y) - y\<bar> \<le> 1 / 2"
proof -
  define f where "f = \<lfloor>y\<rfloor>"
  define d where "d = y - real_of_int f"
  have d: "0 \<le> d" "d < 1"
    unfolding d_def f_def by linarith+
  have r: "round_even y = (if d < 1 / 2 then f else if 1 / 2 < d then f + 1 else if even f then f else f + 1)"
    by (simp add: round_even_def Let_def f_def d_def)
  have y: "y = real_of_int f + d"
    by (simp add: d_def)
  have "\<bar>real_of_int (round_even y) - (real_of_int f + d)\<bar> \<le> 1 / 2"
    unfolding r using d by (auto simp: abs_if)
  then show ?thesis using y by simp
qed

lemma round_double_error:
  assumes "\<bar>x\<bar> \<le> 2 ^ 1023"
  shows "\<exists>r. round_double x = Fin r \<and> \<bar>r - x\<bar> \<le> \<bar>x\<bar> / 2 ^ 53 + 1 / 2 ^ 1075"
proof (cases "x = 0")
  case True
  then show ?thesis by (simp add: round_double_def)
next
  case False
  define a where "a = \<bar>x\<bar>"
  define l where "l = \<lfloor>log 2 a\<rfloor>"
  define u where "u = ulp x"
  have a: "0 < a" using False by (simp add: a_def)
  have upos: "0 < u" by (simp add: u_def ulp_def)
  have la: "2 powr (real_of_int l) \<le> a"
    using floor_log_eq_powr_iff [of a 2 l] a by (simp add: l_def)
  have half: "u / 2 \<le> a / 2 ^ 53 + 1 / 2 ^ 1075"
  proof (cases "- 1022 \<le> l")
    case True
    then have "u = 2 powr (real_of_int l - 52)"
      by (simp add: u_def ulp_def a_def [symmetric] l_def [symmetric] max_def)
    also have "\<dots> = 2 powr (real_of_int l) / 2 ^ 52"
      by (simp add: powr_diff)
    finally have "u / 2 = 2 powr (real_of_int l) / 2 ^ 53" by simp
    also have "\<dots> \<le> a / 2 ^ 53" using la by (simp add: divide_right_mono)
    finally show ?thesis by simp
  next
    case False
    then have "u = 2 powr (- 1074)"
      by (simp add: u_def ulp_def a_def [symmetric] l_def [symmetric] max_def)
    also have "\<dots> = 1 / 2 powr 1074" by (simp add: powr_minus_divide)
    also have "\<dots> = 1 / 2 ^ 1074" by simp
    finally have "u / 2 = 1 / 2 ^ 1075" by simp
    then show ?thesis using a by simp
  qed
  define n where "n = round_even (x / u)"
  define r where "r = real_of_int n * u"
  have "\<bar>real_of_int n - x / u\<bar> \<le> 1 / 2"
    unfolding n_def by (rule round_even_error)
  then have "\<bar>real_of_int n - x / u\<bar> * u \<le> 1 / 2 * u"
    using upos by (intro mult_right_mono) simp_all
  moreover have "\<bar>real_of_int n - x / u\<bar> * u = \<bar>r - x\<bar>"
  proof -
    have "\<bar>real_of_int n - x / u\<bar> * u = \<bar>(real_of_int n - x / u) * u\<bar>"
      using upos by (simp add: abs_mult)
    also have "(real_of_int n - x / u) * u = r - x"
      using upos by (simp add: r_def field_simps)
    finally show ?thesis .
  qed
  ultimately have "\<bar>r - x\<bar> \<le> u / 2" by simp
  with half have err: "\<bar>r - x\<bar> \<le> a / 2 ^ 53 + 1 / 2 ^ 1075" by linarith
  have "a / 2 ^ 53 \<le> 2 ^ 1023 / 2 ^ 53"
    using assms by (simp add: a_def divide_right_mono)
  with err assms have "\<bar>r\<bar> \<le> 2 ^ 1023 + 2 ^ 1023 / 2 ^ 53 + 1 / 2 ^ 1075"
    unfolding a_def by linarith
  also have "\<dots> \<le> DBL_MAX" by (simp add: DBL_MAX_def)
  finally have "\<not> DBL_MAX < r" "\<not> r < - DBL_MAX" by linarith+
  moreover have "real_of_int (round_even (x / ulp x)) * ulp x = r"
    by (simp add: r_def n_def u_def)
  ultimately have "round_double x = Fin r"
    unfolding round_double_def Let_def using \<open>x \<noteq> 0\<close> by simp
  with err show ?thesis unfolding a_def by blast
qed


lemma round_double_nat:
  assumes "m \<le> 2 ^ 53"
  shows "round_double (real m) = Fin (real m)"
proof (cases "m = 0")
  case True
  then show ?thesis by (simp add: round_double_zero)
next
  case False
  then have "1 \<le> m" by simp
  from ex_power_ivl1 [OF _ this, of 2] obtain k where k: "2 ^ k \<le> m" "m < 2 ^ (k + 1)"
    by auto
  from k(1) assms have "(2 :: nat) ^ k \<le> 2 ^ 53" by simp
  then have k53: "k \<le> 53" by (rule power_le_imp_le_exp [rotated]) simp
  have lo: "2 ^ k \<le> \<bar>real m\<bar>"
    using k(1) by (metis abs_of_nat of_nat_le_iff of_nat_numeral of_nat_power)
  have hi: "\<bar>real m\<bar> < 2 ^ (Suc k)"
    using k(2) by (metis Suc_eq_plus1 abs_of_nat of_nat_less_iff of_nat_numeral of_nat_power)
  define p :: real where "p = 2 ^ k"
  have p: "0 < p" by (simp add: p_def)
  show ?thesis
  proof (cases "k = 53")
    case True
    with k(1) assms have m: "m = 2 ^ 53" by simp
    show ?thesis
      unfolding m using round_double_binade [of 53 "2 ^ 53" "2 ^ 52"] by simp
  next
    case False
    with k53 have k52: "k \<le> 52" by simp
    define q :: nat where "q = 2 ^ (52 - k)"
    define N where "N = m * q"
    have qpos: "0 < real q" by (simp add: q_def)
    have "(2 :: real) ^ 52 = 2 ^ (52 - k) * 2 ^ k"
      using k52 by (simp add: power_add [symmetric])
    then have q: "(2 :: real) ^ 52 = real q * p"
      by (simp add: q_def p_def)
    have "real m * 2 ^ 52 / 2 ^ k = real m * (real q * p) / p"
      by (simp only: q p_def)
    also have "\<dots> = real N"
      using p by (simp add: N_def)
    finally have e: "real m * 2 ^ 52 / 2 ^ k = real_of_int (int N)"
      by simp
    have "round_double (real m) = Fin (real_of_int (int N) * 2 ^ k / 2 ^ 52)"
      using lo hi by (rule round_double_binade) (use k52 e in simp_all)
    also have "real_of_int (int N) * 2 ^ k / 2 ^ 52 = real N * p / (real q * p)"
      by (simp only: q p_def of_int_of_nat_eq)
    also have "\<dots> = real m"
      using p qpos by (simp add: N_def)
    finally show ?thesis .
  qed
qed

lemma round_double_relative:
  assumes "\<bar>x\<bar> \<le> 2 ^ 1023"
  shows "\<exists>r. round_double x = Fin r \<and> \<bar>r - x\<bar> \<le> (\<bar>x\<bar> + 1) / 2 ^ 53"
proof -
  from round_double_error [OF assms] obtain r where
    r: "round_double x = Fin r" "\<bar>r - x\<bar> \<le> \<bar>x\<bar> / 2 ^ 53 + 1 / 2 ^ 1075"
    by blast
  have "(1 :: real) / 2 ^ 1075 \<le> 1 / 2 ^ 53"
    by simp
  then have "\<bar>x\<bar> / 2 ^ 53 + 1 / 2 ^ 1075 \<le> \<bar>x\<bar> / 2 ^ 53 + 1 / 2 ^ 53"
    by (rule add_left_mono)
  also have "\<dots> = (\<bar>x\<bar> + 1) / 2 ^ 53"
    by (rule add_divide_distrib [symmetric])
  finally have "\<bar>r - x\<bar> \<le> (\<bar>x\<bar> + 1) / 2 ^ 53"
    using r(2) by (rule order_trans [rotated])
  with r(1) show ?thesis by blast
qed

lemma ln2_bounds: "0 \<le> ln (2 :: real)" "ln (2 :: real) \<le> 1" "1 / 2 < ln (2 :: real)"
proof -
  show "0 \<le> ln (2 :: real)" by simp
  show "ln (2 :: real) \<le> 1" using ln_2_less_1 by simp
  have "(exp (1 / 2 :: real))\<^sup>2 = exp 1"
    by (simp add: exp_double [symmetric])
  moreover have "exp (1 :: real) < 2\<^sup>2"
    using exp_le by simp
  ultimately have "(exp (1 / 2 :: real))\<^sup>2 < 2\<^sup>2" by simp
  then have "exp (1 / 2 :: real) < 2"
    by (rule power2_less_imp_less) simp
  then have "ln (exp (1 / 2 :: real)) < ln 2"
    by (subst ln_less_cancel_iff) simp_all
  then show "1 / 2 < ln (2 :: real)" by simp
qed


section \<open>Properties of the numeric kernel\<close>

lemma vec_max_replicate:
  "0 < n \<Longrightarrow> vec_max (replicate n (Fin a)) = Fin a"
proof -
  have step: "fold (\<lambda>v best_val. if best_val < v then v else best_val) (replicate k (Fin a)) (Fin a) = Fin a"
    for k
    by (induction k) simp_all
  assume "0 < n"
  then obtain k where n: "n = Suc k"
    by (cases n) auto
  show ?thesis
    unfolding vec_max_def n by (simp add: INF_const_def step del: fold_replicate)
qed

lemma vec_max_all_log_zero:
  "\<forall>v \<in> set vec. v = LOG_ZERO \<Longrightarrow> vec_max vec = LOG_ZERO"
proof -
  have "fold (\<lambda>v best_val. if best_val < v then v else best_val) vec MInf = MInf"
    if "\<forall>v \<in> set vec. v = MInf"
    using that by (induction vec) simp_all
  moreover assume "\<forall>v \<in> set vec. v = LOG_ZERO"
  ultimately show ?thesis
    by (simp add: vec_max_def LOG_ZERO_def INF_const_def)
qed

lemma fl_exact: "fl Fin x = x"
  by (cases x) (simp_all add: fl_def)


lemma double_math_at:
  "exp_fin double_math 0 = Fin 1" "log_pos double_math 1 = Fin 0"
  by (simp_all add: double_math_def round_double_one round_double_zero)

lemma fold_rounded_ones:
  assumes "\<forall>i \<le> n. R (real i) = Fin (real i)"
  shows "j + k \<le> n \<Longrightarrow>
         fold (\<lambda>v s. fl R (s + Fin 1)) (replicate k (x :: data_t)) (Fin (real j)) = Fin (real (j + k))"
proof (induction k arbitrary: j)
  case 0
  then show ?case by simp
next
  case (Suc k)
  from Suc.prems have "Suc j \<le> n" by simp
  with assms have "R (real (Suc j)) = Fin (real (Suc j))" by blast
  then have r: "R (real j + 1) = Fin (real j + 1)"
    by (simp add: add.commute)
  have "fl R (Fin (real j) + Fin 1) = R (real j + 1)"
    by (simp add: fl_def)
  also have "\<dots> = Fin (real j + 1)"
    by (rule r)
  also have "real j + 1 = real (Suc j)"
    by simp
  finally have s: "fl R (Fin (real j) + Fin 1) = Fin (real (Suc j))" .
  from Suc.prems have "Suc j + k \<le> n" by simp
  have "fold (\<lambda>v s. fl R (s + Fin 1)) (replicate (Suc k) x) (Fin (real j))
        = fold (\<lambda>v s. fl R (s + Fin 1)) (replicate k x) (fl R (Fin (real j) + Fin 1))"
    by (simp only: replicate_Suc fold_simps)
  also have "\<dots> = fold (\<lambda>v s. fl R (s + Fin 1)) (replicate k x) (Fin (real (Suc j)))"
    by (simp only: s)
  also have "\<dots> = Fin (real (Suc j + k))"
    by (rule Suc.IH [OF \<open>Suc j + k \<le> n\<close>])
  also have "Suc j + k = j + Suc k"
    by simp
  finally show ?case .
qed

lemma elogsum_rnd_copies:
  assumes "1 \<le> n" and "R 0 = Fin 0" and "exp_fin M 0 = Fin 1"
    and "\<forall>i \<le> n. R (real i) = Fin (real i)"
  shows "elogsum_rnd R M (replicate n (Fin a)) = fl R (libc_log M (Fin (real n)) + Fin a)"
proof -
  have e: "libc_exp M (fl R (Fin a - Fin a)) = Fin 1"
    using assms(2,3) by (simp add: libc_exp_def fl_def minus_data_t_def)
  have "fold (\<lambda>v s. fl R (s + libc_exp M (fl R (v - Fin a)))) (replicate n (Fin a)) (Fin 0)
        = fold (\<lambda>v s. fl R (s + Fin 1)) (replicate n (Fin a)) (Fin 0)"
    by (rule fold_cong) (simp_all add: e)
  also have "\<dots> = Fin (real n)"
    using fold_rounded_ones [OF assms(4), of 0 n "Fin a"] by simp
  finally have s: "fold (\<lambda>v s. fl R (s + libc_exp M (fl R (v - Fin a)))) (replicate n (Fin a)) (Fin 0)
        = Fin (real n)" .
  from assms(1) have m: "vec_max (replicate n (Fin a)) = Fin a"
    by (simp add: vec_max_replicate)
  show ?thesis
    unfolding elogsum_rnd_def m Let_def s by (simp add: isinf_def)
qed


lemma elogsum_double_copies:
  assumes "1 \<le> n" and "n \<le> 2 ^ 53"
  shows "elogsum_rnd round_double double_math (replicate n (Fin a))
           = fl round_double (round_double (ln (real n)) + Fin a)"
proof -
  have i: "\<forall>i \<le> n. round_double (real i) = Fin (real i)"
    using assms(2) by (auto intro: round_double_nat)
  have l: "libc_log double_math (Fin (real n)) = round_double (ln (real n))"
    using assms(1) by (simp add: libc_log_def double_math_def)
  from elogsum_rnd_copies [OF assms(1) round_double_zero double_math_at(1) i, of a]
  show ?thesis by (simp only: l)
qed

lemma elogsum_double_close:
  assumes "1 \<le> n" and "n \<le> 2 ^ 53" and "\<bar>a\<bar> \<le> 2 ^ 22"
  shows "\<exists>r. elogsum_rnd round_double double_math (replicate n (Fin a)) = Fin r
             \<and> \<bar>r - (a + ln (real n))\<bar> \<le> 1 / 10 ^ 9"
proof -
  define c where "c = ln (real n)"
  have c0: "0 \<le> c" using assms(1) by (simp add: c_def)
  have "real n \<le> 2 ^ 53"
    using assms(2) by (metis of_nat_le_iff of_nat_numeral of_nat_power)
  then have "c \<le> ln (2 ^ 53)"
    unfolding c_def using assms(1) by (subst ln_le_cancel_iff) simp_all
  also have "ln ((2 :: real) ^ 53) = 53 * ln 2"
    using ln_realpow [of "2 :: real" 53] by simp
  also have "\<dots> \<le> 53"
    using ln_2_less_1 by simp
  finally have c1: "c \<le> 53" .
  have "\<bar>c\<bar> \<le> 2 ^ 1023" using c0 c1 by simp
  from round_double_relative [OF this] obtain L where
    L: "round_double c = Fin L" "\<bar>L - c\<bar> \<le> (\<bar>c\<bar> + 1) / 2 ^ 53"
    by blast
  have "(\<bar>c\<bar> + 1) / 2 ^ 53 \<le> 54 / 2 ^ 53"
    using c0 c1 by (intro divide_right_mono) simp_all
  with L(2) have Lc: "\<bar>L - c\<bar> \<le> 54 / 2 ^ 53"
    by (rule order_trans)
  also have "(54 :: real) / 2 ^ 53 \<le> 1"
    by simp
  finally have "\<bar>L - c\<bar> \<le> 1" .
  with c0 c1 have "\<bar>L\<bar> \<le> 54" by linarith
  with assms(3) have x: "\<bar>L + a\<bar> \<le> 2 ^ 22 + 54" by linarith
  then have "\<bar>L + a\<bar> \<le> 2 ^ 1023" by simp
  from round_double_relative [OF this] obtain r where
    r: "round_double (L + a) = Fin r" "\<bar>r - (L + a)\<bar> \<le> (\<bar>L + a\<bar> + 1) / 2 ^ 53"
    by blast
  have "(\<bar>L + a\<bar> + 1) / 2 ^ 53 \<le> (2 ^ 22 + 55) / 2 ^ 53"
    using x by (intro divide_right_mono) simp_all
  with r(2) have ra: "\<bar>r - (L + a)\<bar> \<le> (2 ^ 22 + 55) / 2 ^ 53"
    by (rule order_trans)
  have "r - (a + c) = (r - (L + a)) + (L - c)"
    by simp
  then have "\<bar>r - (a + c)\<bar> \<le> \<bar>r - (L + a)\<bar> + \<bar>L - c\<bar>"
    by (simp only: abs_triangle_ineq)
  also have "\<dots> \<le> (2 ^ 22 + 55) / 2 ^ 53 + 54 / 2 ^ 53"
    using ra Lc by (rule add_mono)
  also have "\<dots> \<le> 1 / 10 ^ 9" by simp
  finally have close: "\<bar>r - (a + c)\<bar> \<le> 1 / 10 ^ 9" .
  have "elogsum_rnd round_double double_math (replicate n (Fin a)) = Fin r"
    unfolding elogsum_double_copies [OF assms(1,2)] c_def [symmetric] L(1)
    by (simp add: fl_def r(1))
  with close show ?thesis unfolding c_def by blast
qed

text \<open>
  C5. For \<open>n \<ge> 1\<close> copies of a finite \<open>a\<close>, \<open>elogsum\<close> returns \<open>a + ln n\<close> in exact
  arithmetic, for every \<open>a\<close>. On doubles, for at most \<open>2^53\<close> copies, it returns the double
  nearest to \<open>log(n) + a\<close>, where \<open>log(n)\<close> is the double that the math library gives for
  \<open>n\<close>: all that comes before the last addition is exact. That result is within 1e-9 of
  \<open>a + ln n\<close> as long as \<open>|a| \<le> 2^22\<close>. A vector whose maximum is \<open>LOG_ZERO\<close>, as when
  all its entries are \<open>LOG_ZERO\<close>, gives \<open>LOG_ZERO\<close> whatever the rounding, \<open>exp\<close> and
  \<open>log\<close> are, so neither is evaluated.
\<close>

theorem elogsum_copies_and_log_zero:
  "(1 \<le> n \<longrightarrow> elogsum_rnd Fin exact_math (replicate n (Fin a)) = Fin (a + ln (real n)))
   \<and> (1 \<le> n \<and> n \<le> 2 ^ 53 \<longrightarrow>
        elogsum_rnd round_double double_math (replicate n (Fin a))
          = fl round_double (round_double (ln (real n)) + Fin a))
   \<and> (1 \<le> n \<and> n \<le> 2 ^ 53 \<and> \<bar>a\<bar> \<le> 2 ^ 22 \<longrightarrow>
        (\<exists>r. elogsum_rnd round_double double_math (replicate n (Fin a)) = Fin r
             \<and> \<bar>r - (a + ln (real n))\<bar> \<le> 1 / 10 ^ 9))
   \<and> (vec_max vec = LOG_ZERO \<longrightarrow> elogsum_rnd R M vec = LOG_ZERO)
   \<and> ((\<forall>v \<in> set vec. v = LOG_ZERO) \<longrightarrow> elogsum_rnd R M vec = LOG_ZERO)"
proof (intro conjI impI)
  assume n: "1 \<le> n"
  have i: "\<forall>i \<le> n. Fin (real i) = Fin (real i)" by simp
  have "elogsum_rnd Fin exact_math (replicate n (Fin a))
          = fl Fin (libc_log exact_math (Fin (real n)) + Fin a)"
    by (rule elogsum_rnd_copies [OF n _ _ i]) (simp_all add: exact_math_def)
  moreover from n have "libc_log exact_math (Fin (real n)) = Fin (ln (real n))"
    by (simp add: libc_log_def exact_math_def)
  ultimately show "elogsum_rnd Fin exact_math (replicate n (Fin a)) = Fin (a + ln (real n))"
    by (simp add: fl_exact add.commute)
next
  assume "1 \<le> n \<and> n \<le> 2 ^ 53"
  then show "elogsum_rnd round_double double_math (replicate n (Fin a))
          = fl round_double (round_double (ln (real n)) + Fin a)"
    by (simp add: elogsum_double_copies)
next
  assume "1 \<le> n \<and> n \<le> 2 ^ 53 \<and> \<bar>a\<bar> \<le> 2 ^ 22"
  then show "\<exists>r. elogsum_rnd round_double double_math (replicate n (Fin a)) = Fin r
             \<and> \<bar>r - (a + ln (real n))\<bar> \<le> 1 / 10 ^ 9"
    by (intro elogsum_double_close) simp_all
next
  assume "vec_max vec = LOG_ZERO"
  then show "elogsum_rnd R M vec = LOG_ZERO"
    by (simp add: elogsum_rnd_def isinf_def LOG_ZERO_def INF_const_def)
next
  assume "\<forall>v \<in> set vec. v = LOG_ZERO"
  then have "vec_max vec = LOG_ZERO"
    by (rule vec_max_all_log_zero)
  then show "elogsum_rnd R M vec = LOG_ZERO"
    by (simp add: elogsum_rnd_def isinf_def LOG_ZERO_def INF_const_def)
qed

theorem elogsum_copies_and_log_zero_witness:
  "elogsum_rnd Fin exact_math (replicate 2 (Fin 3)) = Fin (3 + ln 2)
   \<and> elogsum_rnd round_double double_math (replicate 2 (Fin 3))
       = fl round_double (round_double (ln 2) + Fin 3)
   \<and> (\<exists>r. elogsum_rnd round_double double_math (replicate 2 (Fin 3)) = Fin r
           \<and> \<bar>r - (3 + ln 2)\<bar> \<le> 1 / 10 ^ 9)
   \<and> elogsum_rnd round_double double_math [LOG_ZERO, LOG_ZERO] = LOG_ZERO"
proof -
  note t = elogsum_copies_and_log_zero [of 2 3 "[LOG_ZERO, LOG_ZERO]" round_double double_math]
  have p: "(1 :: nat) \<le> 2" "(2 :: nat) \<le> 2 ^ 53" "\<bar>3 :: real\<bar> \<le> 2 ^ 22"
    "\<forall>v \<in> set [LOG_ZERO, LOG_ZERO]. v = LOG_ZERO"
    by simp_all
  from t p have "elogsum_rnd Fin exact_math (replicate 2 (Fin 3)) = Fin (3 + ln (real 2))"
    by blast
  then have a: "elogsum_rnd Fin exact_math (replicate 2 (Fin 3)) = Fin (3 + ln 2)"
    by simp
  from t p have "elogsum_rnd round_double double_math (replicate 2 (Fin 3))
       = fl round_double (round_double (ln (real 2)) + Fin 3)"
    by blast
  then have b: "elogsum_rnd round_double double_math (replicate 2 (Fin 3))
       = fl round_double (round_double (ln 2) + Fin 3)"
    by simp
  from t p have "\<exists>r. elogsum_rnd round_double double_math (replicate 2 (Fin 3)) = Fin r
           \<and> \<bar>r - (3 + ln (real 2))\<bar> \<le> 1 / 10 ^ 9"
    by blast
  then have c: "\<exists>r. elogsum_rnd round_double double_math (replicate 2 (Fin 3)) = Fin r
           \<and> \<bar>r - (3 + ln 2)\<bar> \<le> 1 / 10 ^ 9"
    by simp
  from t p have d: "elogsum_rnd round_double double_math [LOG_ZERO, LOG_ZERO] = LOG_ZERO"
    by blast
  from a b c d show ?thesis by blast
qed

text \<open>
  C5 as stated, for every real \<open>a\<close>, fails on doubles: the last addition of \<open>elogsum\<close>
  rounds to a multiple of the distance between the doubles at \<open>a\<close>. For two copies of
  \<open>a = 2^60\<close> the result is \<open>a\<close> itself, \<open>ln 2\<close> away from \<open>a + ln 2\<close>.
\<close>

theorem elogsum_counterexample:
  "elogsum_rnd round_double double_math (replicate 2 (Fin (2 ^ 60))) = Fin (2 ^ 60)
   \<and> 1 / 10 ^ 9 < \<bar>2 ^ 60 - (2 ^ 60 + ln (2 :: real))\<bar>"
proof -
  from round_double_unit [OF ln2_bounds(1,2)] obtain L where
    L: "round_double (ln 2) = Fin L" "0 \<le> L" "L \<le> 1"
    by blast
  have "elogsum_rnd round_double double_math (replicate 2 (Fin (2 ^ 60)))
          = fl round_double (round_double (ln (real 2)) + Fin (2 ^ 60))"
    by (rule elogsum_double_copies) simp_all
  also have "\<dots> = round_double (L + 2 ^ 60)"
    by (simp add: L(1) fl_def)
  also have "\<dots> = Fin (2 ^ 60)"
    using L(2,3) by (rule round_double_absorbed)
  finally have a: "elogsum_rnd round_double double_math (replicate 2 (Fin (2 ^ 60))) = Fin (2 ^ 60)" .
  have b: "1 / 10 ^ 9 < \<bar>2 ^ 60 - (2 ^ 60 + ln (2 :: real))\<bar>"
    using ln2_bounds(3) by simp
  from a b show ?thesis by blast
qed


section \<open>The forward pass\<close>







lemma upd2_row_fill:
  assumes "t < length a" and "length (a ! t) = n"
  shows "fold (\<lambda>i a. upd2 a t i (f i)) [0..<n] a = a[t := map f [0..<n]]"
proof -
  have "m \<le> n \<Longrightarrow> fold (\<lambda>i a. upd2 a t i (f i)) [0..<m] a = a[t := map f [0..<m] @ drop m (a ! t)]" for m
  proof (induction m)
    case 0
    then show ?case by simp
  next
    case (Suc m)
    then have m: "m < length (a ! t)" using assms by simp
    have "(map f [0..<m] @ drop m (a ! t))[m := f m] = map f [0..<m] @ f m # drop (Suc m) (a ! t)"
      using m by (simp add: list_update_append Cons_nth_drop_Suc [symmetric])
    then show ?case using Suc assms(1) by (simp add: upd2_def)
  qed
  from this [of n] assms show ?thesis by simp
qed

lemma shaped_length: "shaped T N a \<Longrightarrow> length a = T"
  by (simp add: shaped_def)

lemma shaped_rows: "shaped T N a \<Longrightarrow> \<forall>t < length a. length (a ! t) = N"
  by (simp add: shaped_def list_all_length)




section \<open>The backward pass\<close>






section \<open>Forward and backward log-likelihoods agree\<close>



























section \<open>Missing values\<close>

lemma observed_samples:
  "map snd (filter fst (zip (map P X) X)) = filter P X"
  by (induction X) simp_all

lemma observed_count:
  "length (filter id (map P X)) = length (filter P X)"
  by (induction X) simp_all

lemma scatter_rows_nth:
  "length rows = length (filter id obs) \<Longrightarrow>
   length (scatter_rows obs rows z) = length obs
   \<and> (\<forall>t < length obs.
        scatter_rows obs rows z ! t
          = (if obs ! t then rows ! length (filter id (take t obs)) else z))"
proof (induction obs rows z rule: scatter_rows.induct)
  case (1 rows z)
  then show ?case by simp
next
  case (2 obs rows z)
  then have ih: "length (scatter_rows obs rows z) = length obs"
    "\<forall>t < length obs. scatter_rows obs rows z ! t
          = (if obs ! t then rows ! length (filter id (take t obs)) else z)"
    by simp_all
  show ?case
  proof (intro conjI allI impI)
    show "length (scatter_rows (False # obs) rows z) = length (False # obs)"
      using ih(1) by simp
    fix t assume "t < length (False # obs)"
    then show "scatter_rows (False # obs) rows z ! t
          = (if (False # obs) ! t then rows ! length (filter id (take t (False # obs))) else z)"
      using ih(2) by (cases t) simp_all
  qed
next
  case (3 obs rows z)
  then obtain r rs where rows: "rows = r # rs"
    by (cases rows) simp_all
  with 3 have ih: "length (scatter_rows obs rs z) = length obs"
    "\<forall>t < length obs. scatter_rows obs rs z ! t
          = (if obs ! t then rs ! length (filter id (take t obs)) else z)"
    by simp_all
  show ?case
  proof (intro conjI allI impI)
    show "length (scatter_rows (True # obs) rows z) = length (True # obs)"
      using ih(1) by (simp add: rows)
    fix t assume "t < length (True # obs)"
    then show "scatter_rows (True # obs) rows z ! t
          = (if (True # obs) ! t then rows ! length (filter id (take t (True # obs))) else z)"
      using ih(2) by (cases t) (simp_all add: rows)
  qed
qed

lemma filter_nth_position:
  "t < length X \<Longrightarrow> P (X ! t) \<Longrightarrow> filter P X ! length (filter P (take t X)) = X ! t"
proof (induction X arbitrary: t)
  case Nil
  then show ?case by simp
next
  case (Cons x X)
  then show ?case by (cases t) simp_all
qed

text \<open>
  C9. In a model built with \<open>missing_values=True\<close>, a timestep whose observation contains
  a NaN gets a row of zeros as its emission log-probabilities, and a fully observed timestep
  gets the row that the subclass's \<open>emission_log_proba\<close> computed for it: the method is
  called on the observed samples, in their order, and its row at the position of the sample
  among them is the one stored.
\<close>

theorem nan_support_rows:
  assumes "missing_values h"
    and "emission_log_proba E h (filter (\<lambda>x. \<not> sample_has_nan E x) X) = Inr rows"
    and "length rows = length (filter (\<lambda>x. \<not> sample_has_nan E x) X)"
  shows "\<exists>lnf. emission_log_proba_with_nan_support E h X = Inr lnf
           \<and> length lnf = length X
           \<and> (\<forall>t < length X.
                if sample_has_nan E (X ! t) then lnf ! t = replicate (n_states h) (Fin 0)
                else lnf ! t = rows ! length (filter (\<lambda>x. \<not> sample_has_nan E x) (take t X))
                   \<and> filter (\<lambda>x. \<not> sample_has_nan E x) X
                        ! length (filter (\<lambda>x. \<not> sample_has_nan E x) (take t X)) = X ! t)"
proof -
  let ?P = "\<lambda>x. \<not> sample_has_nan E x"
  let ?obs = "map ?P X"
  let ?z = "replicate (n_states h) (Fin 0 :: data_t)"
  have len: "length rows = length (filter id ?obs)"
    using assms(3) by (simp add: observed_count)
  have res: "emission_log_proba_with_nan_support E h X = Inr (scatter_rows ?obs rows ?z)"
    unfolding emission_log_proba_with_nan_support_def Let_def observed_samples
    using assms(1,2) len by simp
  note sc = scatter_rows_nth [OF len, of ?z]
  have cnt: "length (filter id (take t ?obs)) = length (filter ?P (take t X))" for t
    unfolding take_map by (rule observed_count)
  have "\<forall>t < length X.
          if sample_has_nan E (X ! t) then scatter_rows ?obs rows ?z ! t = ?z
          else scatter_rows ?obs rows ?z ! t = rows ! length (filter ?P (take t X))
             \<and> filter ?P X ! length (filter ?P (take t X)) = X ! t"
    using sc by (simp add: cnt filter_nth_position)
  with res sc show ?thesis by simp
qed

theorem nan_support_rows_witness:
  "missing_values ghmm2
   \<and> emission_log_proba (ghmm_ops sq_dist_log_proba keep_params) ghmm2
        (filter (\<lambda>x. \<not> sample_has_nan (ghmm_ops sq_dist_log_proba keep_params) x) gaps3)
       = Inr [[Fin (- 1), Fin (- 16)], [Fin (- 16), Fin (- 1)]]
   \<and> (\<exists>lnf. emission_log_proba_with_nan_support (ghmm_ops sq_dist_log_proba keep_params) ghmm2 gaps3
               = Inr lnf
          \<and> length lnf = 3 \<and> lnf ! 0 = [Fin (- 1), Fin (- 16)] \<and> lnf ! 1 = [Fin 0, Fin 0]
          \<and> lnf ! 2 = [Fin (- 16), Fin (- 1)])"
proof -
  let ?E = "ghmm_ops sq_dist_log_proba keep_params"
  let ?rows = "[[Fin (- 1), Fin (- 16)], [Fin (- 16), Fin (- 1)]]"
  have obs: "filter (\<lambda>x. \<not> sample_has_nan ?E x) gaps3 = [[Fin 1], [Fin 4]]"
    by (simp add: ghmm_ops_def gaps3_def isnan_def)
  have h1: "missing_values ghmm2"
    by (simp add: ghmm2_def)
  have h2: "emission_log_proba ?E ghmm2 (filter (\<lambda>x. \<not> sample_has_nan ?E x) gaps3) = Inr ?rows"
    unfolding obs
    by (simp add: ghmm_ops_def ghmm_emission_log_proba_def sq_dist_log_proba_def ghmm2_def
        minus_data_t_def Let_def)
  have h3: "length ?rows = length (filter (\<lambda>x. \<not> sample_has_nan ?E x) gaps3)"
    unfolding obs by simp
  from nan_support_rows [OF h1 h2 h3] obtain lnf where
    r: "emission_log_proba_with_nan_support ?E ghmm2 gaps3 = Inr lnf"
    and l: "length lnf = length gaps3"
    and n: "\<forall>t < length gaps3.
                if sample_has_nan ?E (gaps3 ! t) then lnf ! t = replicate (n_states ghmm2) (Fin 0)
                else lnf ! t = ?rows ! length (filter (\<lambda>x. \<not> sample_has_nan ?E x) (take t gaps3))
                   \<and> filter (\<lambda>x. \<not> sample_has_nan ?E x) gaps3
                        ! length (filter (\<lambda>x. \<not> sample_has_nan ?E x) (take t gaps3)) = gaps3 ! t"
    by blast
  have nan: "sample_has_nan ?E [NaN]" "\<not> sample_has_nan ?E [Fin 1]" "\<not> sample_has_nan ?E [Fin 4]"
    by (simp_all add: ghmm_ops_def isnan_def)
  from n have "lnf ! 0 = [Fin (- 1), Fin (- 16)]" "lnf ! 1 = [Fin 0, Fin 0]" "lnf ! 2 = [Fin (- 16), Fin (- 1)]"
    by (simp_all add: gaps3_def nan ghmm2_def All_less_Suc numeral_3_eq_3 numeral_2_eq_2)
  moreover from l have "length lnf = 3" by (simp add: gaps3_def)
  ultimately show ?thesis using r h1 h2 by blast
qed

section \<open>Decoding\<close>

lemma fill_rows:
  assumes "shaped T N g"
  shows "fold (\<lambda>t. fold (\<lambda>i g. upd2 g t i (f t i)) [0..<N]) [0..<T] g
           = map (\<lambda>t. map (f t) [0..<N]) [0..<T]"
proof -
  have len: "length g = T" and rows: "\<forall>t < length g. length (g ! t) = N"
    using assms by (simp_all add: shaped_length shaped_rows)
  have "m \<le> T \<Longrightarrow>
        fold (\<lambda>t. fold (\<lambda>i g. upd2 g t i (f t i)) [0..<N]) [0..<m] g
          = map (\<lambda>t. map (f t) [0..<N]) [0..<m] @ drop m g" for m
  proof (induction m)
    case 0
    then show ?case by simp
  next
    case (Suc m)
    let ?a = "map (\<lambda>t. map (f t) [0..<N]) [0..<m] @ drop m g"
    have m: "m < length g" using Suc.prems len by simp
    have am: "m < length ?a" using m by simp
    have row: "?a ! m = g ! m"
      using m by (simp add: nth_append)
    then have "length (?a ! m) = N" using rows m by simp
    with am have "fold (\<lambda>i g. upd2 g m i (f m i)) [0..<N] ?a = ?a[m := map (f m) [0..<N]]"
      by (rule upd2_row_fill)
    also have "\<dots> = map (\<lambda>t. map (f t) [0..<N]) [0..<m] @ (drop m g)[0 := map (f m) [0..<N]]"
      by (simp add: list_update_append)
    also have "(drop m g)[0 := map (f m) [0..<N]] = map (f m) [0..<N] # drop (Suc m) g"
      using m by (simp add: Cons_nth_drop_Suc [symmetric])
    finally show ?case using Suc by simp
  qed
  from this [of T] len show ?thesis by simp
qed

lemma shaped_zeros2: "shaped n m (np_zeros2 n m)"
  by (simp add: shaped_def np_zeros2_def list_all_length)

lemma e_step_gamma_shape:
  assumes "shaped T (n_states h) ln_gamma"
  shows "shaped T (n_states h) (e_step_gamma h ln_alpha ln_beta lnP_f T ln_gamma)"
  unfolding e_step_gamma_def fill_rows [OF assms]
  by (simp add: shaped_def list_all_length)

lemma e_step_ok:
  assumes "ln_alpha \<noteq> []" and "shaped (length ln_alpha) (n_states h) lnf"
    and "shaped (length ln_alpha) (n_states h) ln_gamma"
  shows "\<exists>r. e_step M junk h lnf ln_alpha ln_beta ln_gamma ln_xi sid = Inr r
           \<and> shaped (length ln_alpha) (n_states h) (fst (snd (snd (snd r))))"
  using assms(1,2) e_step_gamma_shape [OF assms(3)]
  by (simp add: e_step_def Let_def)

lemma shaped_eexp2d: "shaped T N a \<Longrightarrow> shaped T N (eexp2d M a)"
  by (simp add: shaped_def eexp2d_def list_all_length)

lemma log_likelihood_ok:
  assumes "well_emitted E h X"
  shows "\<exists>lnP gamma. log_likelihood M junk E h X None = Inr (lnP, gamma)
           \<and> shaped (length X) (n_states h) gamma"
proof -
  from assms obtain lnf where X: "X \<noteq> []"
    and lnf: "emission_log_proba_with_nan_support E h X = Inr lnf"
    and sh: "shaped (length X) (n_states h) lnf"
    by (auto simp: well_emitted_def)
  let ?z = "np_zeros2 (length X) (n_states h)"
  have z: "?z \<noteq> []" "length ?z = length X"
    using X by (simp_all add: np_zeros2_def)
  have s1: "shaped (length ?z) (n_states h) lnf" using sh z by simp
  have s2: "shaped (length ?z) (n_states h) ?z" using z by (simp add: shaped_zeros2)
  from e_step_ok [OF z(1) s1 s2]
  obtain r where r: "e_step M junk h lnf ?z ?z ?z (np_zeros3 (length X) (n_states h) (n_states h)) 0 = Inr r"
    and g: "shaped (length ?z) (n_states h) (fst (snd (snd (snd r))))"
    by blast
  have "log_likelihood M junk E h X None = Inr (fst r, eexp2d M (fst (snd (snd (snd r)))))"
    by (simp add: log_likelihood_def Let_def lnf r)
  moreover have "shaped (length X) (n_states h) (eexp2d M (fst (snd (snd (snd r)))))"
    using g z by (simp add: shaped_eexp2d)
  ultimately show ?thesis by blast
qed

lemma argmax_from_less:
  "best < i \<Longrightarrow> argmax_from mp best i xs < i + length xs"
proof (induction xs arbitrary: mp best i)
  case Nil
  then show ?case by simp
next
  case (Cons x xs)
  have a: "argmax_from x i (Suc i) xs < Suc i + length xs"
    by (rule Cons.IH) simp
  have b: "argmax_from mp best (Suc i) xs < Suc i + length xs"
    by (rule Cons.IH) (use Cons.prems in simp)
  show ?case
    using a b Cons.prems by simp
qed

lemma argmax_ok:
  "row \<noteq> [] \<Longrightarrow> \<exists>k. argmax row = Inr k \<and> k < length row"
  using argmax_from_less [of 0 1]
  by (cases row) (auto simp: argmax_def)

lemma map_err_ok:
  "\<forall>x \<in> set xs. \<exists>y. f x = Inr y \<and> P x y \<Longrightarrow>
   \<exists>ys. map_err f xs = Inr ys \<and> length ys = length xs
        \<and> (\<forall>k < length xs. f (xs ! k) = Inr (ys ! k) \<and> P (xs ! k) (ys ! k))"
proof (induction xs)
  case Nil
  then show ?case by simp
next
  case (Cons x xs)
  then obtain y ys where y: "f x = Inr y" "P x y"
    and ys: "map_err f xs = Inr ys" "length ys = length xs"
      "\<forall>k < length xs. f (xs ! k) = Inr (ys ! k) \<and> P (xs ! k) (ys ! k)"
    by auto
  have "\<forall>k < length (x # xs). f ((x # xs) ! k) = Inr ((y # ys) ! k) \<and> P ((x # xs) ! k) ((y # ys) ! k)"
    using y ys(3) by (auto simp: nth_Cons split: nat.splits)
  then show ?case
    using y ys by (intro exI [of _ "y # ys"]) simp
qed

lemma decode_sequence_ok:
  assumes "well_emitted E h X" and "1 \<le> n_states h"
  shows "\<exists>p. decode_sequence M junk E h X = Inr p
           \<and> (length p = length X \<and> (\<forall>s \<in> set p. s < n_states h))"
proof -
  from log_likelihood_ok [OF assms(1)] obtain lnP gamma where
    ll: "log_likelihood M junk E h X None = Inr (lnP, gamma)"
    and sh: "shaped (length X) (n_states h) gamma"
    by blast
  have rows: "\<forall>row \<in> set gamma. length row = n_states h"
    using sh by (simp add: shaped_def list_all_iff)
  then have "\<forall>row \<in> set gamma. \<exists>k. argmax row = Inr k \<and> k < n_states h"
    using argmax_ok assms(2) by (metis length_greater_0_conv less_eq_Suc_le One_nat_def)
  from map_err_ok [OF this] obtain p where
    p: "map_err argmax gamma = Inr p" "length p = length gamma"
      "\<forall>k < length gamma. argmax (gamma ! k) = Inr (p ! k) \<and> p ! k < n_states h"
    by blast
  have "\<forall>s \<in> set p. s < n_states h"
    using p(2,3) by (auto simp: in_set_conv_nth)
  moreover have "length p = length X"
    using p(2) sh by (simp add: shaped_def)
  moreover have "decode_sequence M junk E h X = Inr p"
    by (simp add: decode_sequence_def ll p(1))
  ultimately show ?thesis by blast
qed

text \<open>
  C10. \<open>decode\<close> of a list of sequences: when the (checked) list holds exactly one sequence
  the result is the array of decoded states itself; otherwise it is a list with one array
  for each sequence, in the order of the input. Each array has one entry for each timestep,
  a state in \<open>[0, n_states)\<close>.
\<close>

theorem decode_one_or_list:
  assumes "check_hmm_sequences_list C L = Inr (X_s, nf)"
    and "1 \<le> n_states h"
    and "\<forall>X \<in> set X_s. well_emitted E h X"
  shows "\<exists>ps. length ps = length X_s
           \<and> (\<forall>k < length X_s.
                 decode_sequence M junk E h (X_s ! k) = Inr (ps ! k)
               \<and> length (ps ! k) = length (X_s ! k)
               \<and> (\<forall>s \<in> set (ps ! k). s < n_states h))
           \<and> decode M junk C E h (Many L)
               = Inr (if length X_s = 1 then One (ps ! 0) else Several ps)"
proof -
  have "\<forall>X \<in> set X_s. \<exists>p. decode_sequence M junk E h X = Inr p
           \<and> (length p = length X \<and> (\<forall>s \<in> set p. s < n_states h))"
    using assms(2,3) decode_sequence_ok by blast
  from map_err_ok [OF this] obtain ps where
    ps: "map_err (decode_sequence M junk E h) X_s = Inr ps" "length ps = length X_s"
      "\<forall>k < length X_s. decode_sequence M junk E h (X_s ! k) = Inr (ps ! k)
          \<and> (length (ps ! k) = length (X_s ! k) \<and> (\<forall>s \<in> set (ps ! k). s < n_states h))"
    by blast
  have "decode M junk C E h (Many L) = Inr (if length X_s = 1 then One (ps ! 0) else Several ps)"
    by (simp add: decode_def checked_sequences_def assms(1) ps(1,2))
  with ps(2,3) show ?thesis by blast
qed

lemma mhmm2_well_emitted:
  "set X \<subseteq> {0} \<Longrightarrow> X \<noteq> [] \<Longrightarrow> well_emitted (mhmm_ops M keep_params) mhmm2 X"
  by (auto simp: well_emitted_def emission_log_proba_with_nan_support_def mhmm_ops_def
      mhmm_emission_log_proba_def mhmm2_def shaped_def list_all_iff)

theorem decode_one_or_list_witness:
  "(\<exists>p. decode exact_math NaN accept_all (mhmm_ops exact_math keep_params) mhmm2 (Many [[0, 0]])
          = Inr (One p) \<and> length p = 2 \<and> (\<forall>s \<in> set p. s < 2))
   \<and> (\<exists>p q. decode exact_math NaN accept_all (mhmm_ops exact_math keep_params) mhmm2 (Many [[0, 0], [0]])
          = Inr (Several [p, q]) \<and> length p = 2 \<and> length q = 1)"
proof -
  let ?E = "mhmm_ops exact_math keep_params"
  have n: "1 \<le> n_states mhmm2" by (simp add: mhmm2_def)
  have c1: "check_hmm_sequences_list accept_all [[0, 0 :: int]] = Inr ([[0, 0]], 1)"
    and c2: "check_hmm_sequences_list accept_all [[0, 0 :: int], [0]] = Inr ([[0, 0], [0]], 1)"
    by (simp_all add: accept_all_def)
  have w1: "\<forall>X \<in> set [[0, 0 :: int]]. well_emitted ?E mhmm2 X"
    and w2: "\<forall>X \<in> set [[0, 0 :: int], [0]]. well_emitted ?E mhmm2 X"
    by (simp_all add: mhmm2_well_emitted)
  from decode_one_or_list [OF c1 n w1, of exact_math NaN] obtain ps where
    "length ps = 1" "length (ps ! 0) = 2" "\<forall>s \<in> set (ps ! 0). s < n_states mhmm2"
    "decode exact_math NaN accept_all ?E mhmm2 (Many [[0, 0]]) = Inr (One (ps ! 0))"
    by auto
  then have a: "\<exists>p. decode exact_math NaN accept_all ?E mhmm2 (Many [[0, 0]])
          = Inr (One p) \<and> length p = 2 \<and> (\<forall>s \<in> set p. s < 2)"
    by (auto simp: mhmm2_def)
  from decode_one_or_list [OF c2 n w2, of exact_math NaN] obtain qs where
    q: "length qs = 2" "length (qs ! 0) = 2" "length (qs ! 1) = 1"
    "decode exact_math NaN accept_all ?E mhmm2 (Many [[0, 0], [0]]) = Inr (Several qs)"
    by (auto simp: All_less_Suc numeral_2_eq_2)
  from q(1) have "qs = [qs ! 0, qs ! 1]"
    by (intro nth_equalityI) (auto simp: less_Suc_eq numeral_2_eq_2)
  with q have b: "\<exists>p q. decode exact_math NaN accept_all ?E mhmm2 (Many [[0, 0], [0]])
          = Inr (Several [p, q]) \<and> length p = 2 \<and> length q = 1"
    by metis
  from a b show ?thesis by blast
qed

section \<open>Untrained models\<close>

lemma bind_err_Inr_iff:
  "bind_err x f = Inr r \<longleftrightarrow> (\<exists>v. x = Inr v \<and> f v = Inr r)"
  by (cases x) simp_all

lemma score_untrained_no_result:
  "\<not> is_trained h \<Longrightarrow> score M junk C E h X y criterion \<noteq> Inr r"
  by (simp add: score_def bind_err_Inr_iff get_num_params_def Let_def)

lemma score_untrained_error:
  assumes "\<not> is_trained h" and "checked_sequences C X = Inr X_s" and "X_s \<noteq> []"
    and "\<forall>X \<in> set X_s. well_emitted E h X"
  shows "score M junk C E h X None criterion = Inl UntrainedModelError"
proof -
  have "\<forall>X \<in> set X_s. \<exists>r. log_likelihood M junk E h X None = Inr r \<and> True"
    using assms(4) log_likelihood_ok by blast
  from map_err_ok [OF this] obtain rs where
    rs: "map_err (\<lambda>X. log_likelihood M junk E h X None) X_s = Inr rs"
    by blast
  from assms(3) obtain X0 Xr where X_s: "X_s = X0 # Xr"
    by (cases X_s) auto
  have n: "(case X_s of [] \<Rightarrow> Inl IndexError | X # _ \<Rightarrow> Inr (length X)) = Inr (length X0)"
    by (simp add: X_s)
  show ?thesis
    using assms(1) by (simp add: score_def assms(2) n rs get_num_params_def)
qed

lemma decode_ok:
  assumes "checked_sequences C X = Inr X_s" and "1 \<le> n_states h"
    and "\<forall>X \<in> set X_s. well_emitted E h X"
  shows "\<exists>r. decode M junk C E h X = Inr r"
proof -
  have "\<forall>X \<in> set X_s. \<exists>p. decode_sequence M junk E h X = Inr p
           \<and> (length p = length X \<and> (\<forall>s \<in> set p. s < n_states h))"
    using assms(2,3) decode_sequence_ok by blast
  from map_err_ok [OF this] obtain ps where
    "map_err (decode_sequence M junk E h) X_s = Inr ps"
    by blast
  then show ?thesis
    by (simp add: decode_def assms(1))
qed

text \<open>
  C7, as the code has it. On a model whose \<open>n_features\<close> is still unset, \<open>score\<close> never
  returns a result: the error of an untrained model is raised by \<open>get_num_params\<close>, once
  the input checks and the log-likelihoods have gone through (an error raised by those comes
  first). \<open>decode\<close> does not look at \<open>n_features\<close>: it returns the decoded states whenever
  the checks pass and the emission matrices have their shape, trained or not.
\<close>

theorem untrained_score_and_decode:
  assumes "\<not> is_trained h"
  shows "(\<forall>r. score M junk C E h X y criterion \<noteq> Inr r)
       \<and> (checked_sequences C X = Inr X_s \<and> X_s \<noteq> [] \<and> (\<forall>X \<in> set X_s. well_emitted E h X)
            \<longrightarrow> score M junk C E h X None criterion = Inl UntrainedModelError)
       \<and> (checked_sequences C X = Inr X_s \<and> 1 \<le> n_states h \<and> (\<forall>X \<in> set X_s. well_emitted E h X)
            \<longrightarrow> (\<exists>r. decode M junk C E h X = Inr r))"
proof (intro conjI allI impI)
  fix r show "score M junk C E h X y criterion \<noteq> Inr r"
    using assms by (rule score_untrained_no_result)
next
  assume "checked_sequences C X = Inr X_s \<and> X_s \<noteq> [] \<and> (\<forall>X \<in> set X_s. well_emitted E h X)"
  then show "score M junk C E h X None criterion = Inl UntrainedModelError"
    using assms score_untrained_error by blast
next
  assume "checked_sequences C X = Inr X_s \<and> 1 \<le> n_states h \<and> (\<forall>X \<in> set X_s. well_emitted E h X)"
  then show "\<exists>r. decode M junk C E h X = Inr r"
    using decode_ok by blast
qed

theorem untrained_score_and_decode_witness:
  "\<not> is_trained mhmm2
   \<and> score exact_math NaN accept_all (mhmm_ops exact_math keep_params) mhmm2 (Single [0]) None ''aic''
       = Inl UntrainedModelError
   \<and> (\<exists>r. decode exact_math NaN accept_all (mhmm_ops exact_math keep_params) mhmm2 (Single [0]) = Inr r)"
proof -
  let ?E = "mhmm_ops exact_math keep_params"
  have u: "\<not> is_trained mhmm2"
    by (simp add: is_trained_def mhmm2_def)
  have c: "checked_sequences accept_all (Single [0 :: int]) = Inr [[0]]"
    by (simp add: checked_sequences_def accept_all_def)
  have w: "\<forall>X \<in> set [[0 :: int]]. well_emitted ?E mhmm2 X"
    by (simp add: mhmm2_well_emitted)
  have n: "1 \<le> n_states mhmm2"
    by (simp add: mhmm2_def)
  from untrained_score_and_decode [OF u, of exact_math NaN accept_all ?E "Single [0]" None "''aic''" "[[0]]"]
    c w n u
  show ?thesis by simp
qed

lemmas kernel_defs = vec_max_def elogsum_def isinf_def isnan_def neq_def dabs_def INF_const_def LOG_ZERO_def ZERO_def
  libc_exp_def libc_log_def exact_math_def eexp_def elog_def eexp2d_def elog1d_def elog2d_def minus_data_t_def

lemmas fb_defs = upd2_def upd3_def compute_ln_phi_def forward_tmp_def forward_cell_def forward_row_def forward_def
  backward_tmp_def backward_cell_def backward_row_def backward_def shaped_def
  e_step_xi0_def e_step_xi_def e_step_gamma_def e_step_def np_empty_def

lemmas mhmm_defs = mhmm_emission_log_proba_def mhmm_nan_to_zeros_def mhmm_update_state_def
  mhmm_update_emission_params_def mhmm_ops_def nan_to_zero_def

lemma upt_small:
  "[0..<1] = [0]" "[0..<2] = [0, 1]" "[1..<1] = []" "[1..<2] = [1]" "[0..<0] = []"
  "replicate 1 x = [x]" "replicate 2 x = [x, x]"
  by (simp_all add: upt_rec numeral_2_eq_2)

lemma mhmm2_lnf:
  "emission_log_proba_with_nan_support (mhmm_ops exact_math keep_params) mhmm2 [0] = Inr [[Fin 0, Fin 0]]"
  by (simp add: emission_log_proba_with_nan_support_def mhmm_defs mhmm2_def libc_log_def exact_math_def upt_small)

lemma mhmm2_e_step:
  "e_step exact_math NaN mhmm2 [[Fin 0, Fin 0]] (np_zeros2 1 2) (np_zeros2 1 2) (np_zeros2 1 2) (np_zeros3 1 2 2) 0
     = Inr (Fin 0, [[Fin 0, MInf]], [[Fin 0, Fin 0]], [[Fin 0, MInf]], [[[Fin 0, Fin 0], [MInf, MInf]]])"
  by (simp add: fb_defs mhmm2_def kernel_defs np_zeros2_def np_zeros3_def Let_def upt_small)

text \<open>
  C7 as stated fails for \<open>decode\<close>: on the untrained two-state model \<open>mhmm2\<close>, \<open>decode\<close> of
  the one-sample sequence \<open>[0]\<close> returns the states \<open>[0]\<close>.
\<close>

theorem decode_untrained_counterexample:
  "\<not> is_trained mhmm2
   \<and> decode exact_math NaN accept_all (mhmm_ops exact_math keep_params) mhmm2 (Single [0])
       = Inr (One [0])"
proof -
  have ll: "log_likelihood exact_math NaN (mhmm_ops exact_math keep_params) mhmm2 [0] None
          = Inr (Fin 0, [[Fin 1, Fin 0]])"
    unfolding log_likelihood_def Let_def mhmm2_lnf
    using mhmm2_e_step by (simp add: mhmm2_def kernel_defs)
  have "decode_sequence exact_math NaN (mhmm_ops exact_math keep_params) mhmm2 [0] = Inr [0]"
    by (simp add: decode_sequence_def ll argmax_def isnan_def less_eq_data_t_def)
  then show ?thesis
    by (simp add: decode_def checked_sequences_def accept_all_def is_trained_def mhmm2_def)
qed

section \<open>Emission parameters of GHMM\<close>

lemma nan_to_zero_not_nan: "\<not> isnan (nan_to_zero v)"
  by (simp add: nan_to_zero_def isnan_def ZERO_def)

lemma ghmm_no_nan:
  "(\<forall>row \<in> set (mu (ghmm_update_emission_params h X gamma)). \<forall>v \<in> set row. \<not> isnan v)
   \<and> (\<forall>m \<in> set (sigma (ghmm_update_emission_params h X gamma)).
         \<forall>row \<in> set m. \<forall>v \<in> set row. \<not> isnan v)"
  by (auto simp: ghmm_update_emission_params_def ghmm_nan_to_zeros_def nan_to_zero_not_nan)

lemma mu_update_state:
  "mu (ghmm_update_state X gamma k h)
     = fold (\<lambda>j m. upd2 m k j (np_dot (map (\<lambda>r. r ! k) gamma) (map (\<lambda>x. x ! j) X) * ghmm_norm gamma k))
         [0..<n_cols X] (mu h)"
proof -
  have "fold (\<lambda>j m. upd2 m k j (map f [0..<n] ! j)) [0..<n] m0 = fold (\<lambda>j m. upd2 m k j (f j)) [0..<n] m0"
    for f :: "nat \<Rightarrow> data_t" and n and m0 :: "data_t list list"
    by (rule fold_cong) simp_all
  then show ?thesis
    by (simp add: ghmm_update_state_def Let_def ghmm_norm_def)
qed

lemma mu_update_states:
  "mu (fold (ghmm_update_state X gamma) ks h)
     = fold (\<lambda>k. fold (\<lambda>j m. upd2 m k j
                 (np_dot (map (\<lambda>r. r ! k) gamma) (map (\<lambda>x. x ! j) X) * ghmm_norm gamma k))
               [0..<n_cols X]) ks (mu h)"
  by (induction ks arbitrary: h) (simp_all add: mu_update_state)

lemma ghmm_mean_update:
  assumes "shaped (n_states h) (n_cols X) (mu h)"
  shows "mu (ghmm_update_emission_params h X gamma)
           = map (\<lambda>k. map (ghmm_new_mean X gamma k) [0..<n_cols X]) [0..<n_states h]"
proof -
  have sh: "shaped (n_states h) (n_cols X) (mu (ghmm_nan_to_zeros h))"
    using assms by (simp add: ghmm_nan_to_zeros_def shaped_def list_all_length)
  have n: "n_states (ghmm_nan_to_zeros h) = n_states h"
    by (simp add: ghmm_nan_to_zeros_def)
  show ?thesis
    unfolding ghmm_update_emission_params_def
    by (simp add: ghmm_nan_to_zeros_def [of "fold _ _ _"] mu_update_states fill_rows [OF sh]
        ghmm_new_mean_def comp_def)
qed

lemma times_one: "x * Fin 1 = (x :: data_t)"
  by (cases x) simp_all

text \<open>
  C6, as the code has it. After \<open>update_emission_params\<close> no entry of \<open>mu\<close> or \<open>sigma\<close> is
  NaN: \<open>nan_to_zeros\<close> replaces each NaN by zero. The new mean of state \<open>k\<close> is
  \<open>np.dot(posteriors, X) * norm\<close> with that replacement, whatever the mean was before; when the
  total posterior weight of the state is exactly zero, \<open>norm\<close> is \<open>1\<close>, so nothing is divided
  by zero and the mean is the weighted sum itself.
\<close>

theorem ghmm_update_nan_and_zero_weight:
  "(\<forall>row \<in> set (mu (ghmm_update_emission_params h X gamma)). \<forall>v \<in> set row. \<not> isnan v)
   \<and> (\<forall>m \<in> set (sigma (ghmm_update_emission_params h X gamma)).
         \<forall>row \<in> set m. \<forall>v \<in> set row. \<not> isnan v)
   \<and> (shaped (n_states h) (n_cols X) (mu h) \<longrightarrow>
         mu (ghmm_update_emission_params h X gamma)
           = map (\<lambda>k. map (ghmm_new_mean X gamma k) [0..<n_cols X]) [0..<n_states h])
   \<and> (np_sum (map (\<lambda>r. r ! k) gamma) = Fin 0 \<longrightarrow>
         ghmm_new_mean X gamma k j
           = nan_to_zero (np_dot (map (\<lambda>r. r ! k) gamma) (map (\<lambda>x. x ! j) X)))"
  using ghmm_no_nan [of h X gamma] ghmm_mean_update [of h X gamma]
  by (simp add: ghmm_new_mean_def ghmm_norm_def neq_def times_one)

lemmas ghmm_defs = ghmm_update_emission_params_def ghmm_update_state_def ghmm_nan_to_zeros_def
  nan_to_zero_def n_cols_def np_sum_def np_dot_def neq_def isnan_def ZERO_def upd2_def upd3_def
  minus_data_t_def Let_def

theorem ghmm_update_nan_and_zero_weight_witness:
  "shaped (n_states ghmm2) (n_cols [[Fin 1]]) (mu ghmm2)
   \<and> np_sum (map (\<lambda>r. r ! 1) [[Fin 1, Fin 0]]) = Fin 0
   \<and> mu (ghmm_update_emission_params ghmm2 [[Fin 1]] [[Fin 1, Fin 0]]) = [[Fin 1], [Fin 0]]
   \<and> ghmm_new_mean [[Fin 1]] [[Fin 1, Fin 0]] 1 0 = Fin 0"
proof -
  have s: "shaped (n_states ghmm2) (n_cols [[Fin 1 :: data_t]]) (mu ghmm2)"
    by (simp add: shaped_def ghmm2_def n_cols_def)
  have z: "np_sum (map (\<lambda>r. r ! 1) [[Fin 1, Fin 0]]) = Fin 0"
    by (simp add: np_sum_def)
  have d: "np_dot [Fin 0] [Fin 1] = Fin 0"
    by (simp add: np_sum_def np_dot_def)
  have m0: "ghmm_new_mean [[Fin 1]] [[Fin 1, Fin 0]] 0 0 = Fin 1"
    by (simp add: ghmm_new_mean_def ghmm_norm_def ghmm_defs)
  from ghmm_update_nan_and_zero_weight [of ghmm2 "[[Fin 1]]" "[[Fin 1, Fin 0]]" 1 0] s z
  have "mu (ghmm_update_emission_params ghmm2 [[Fin 1]] [[Fin 1, Fin 0]])
           = map (\<lambda>k. map (ghmm_new_mean [[Fin 1]] [[Fin 1, Fin 0]] k) [0..<n_cols [[Fin 1 :: data_t]]])
               [0..<n_states ghmm2]"
    and m1: "ghmm_new_mean [[Fin 1]] [[Fin 1, Fin 0]] 1 0 = Fin 0"
    by (simp_all add: d nan_to_zero_def isnan_def ZERO_def)
  then have "mu (ghmm_update_emission_params ghmm2 [[Fin 1]] [[Fin 1, Fin 0]]) = [[Fin 1], [Fin 0]]"
    by (simp add: n_cols_def ghmm2_def upt_small m0)
  with s z m1 show ?thesis by simp
qed

text \<open>
  C6 as stated fails: in \<open>ghmm2\<close> state \<open>1\<close> has mean \<open>5\<close> and variance \<open>1\<close>; an update in
  which its posterior weight is zero sets both to zero, and an update on a NaN observation
  puts zero, not the previous \<open>5\<close>, where the new mean is NaN.
\<close>

theorem ghmm_update_counterexample:
  "np_sum (map (\<lambda>r. r ! 1) [[Fin 1, Fin 0]]) = Fin 0
   \<and> mu ghmm2 ! 1 = [Fin 5] \<and> sigma ghmm2 ! 1 = [[Fin 1]]
   \<and> mu (ghmm_update_emission_params ghmm2 [[Fin 1]] [[Fin 1, Fin 0]]) ! 1 = [Fin 0]
   \<and> sigma (ghmm_update_emission_params ghmm2 [[Fin 1]] [[Fin 1, Fin 0]]) ! 1 = [[Fin 0]]
   \<and> mu (ghmm_update_emission_params ghmm2 [[NaN]] [[Fin 1, Fin 0]]) ! 1 = [Fin 0]"
  by (simp add: ghmm_defs ghmm2_def upt_small)

section \<open>The loop of Baum-Welch\<close>

lemmas bw_defs = nan_to_num_def np_sum_def np_dot_def create_buffers_def bw_e_step_def
  update_initial_probs_def transition_entry_def update_transition_probs_def baum_welch_iteration_def

lemma long_cast_small: "0 \<le> eps \<Longrightarrow> eps < 1 \<Longrightarrow> long_cast eps = Inr 0"
proof -
  assume "0 \<le> eps" "eps < 1"
  then have "\<lfloor>eps\<rfloor> = 0" by (simp add: floor_eq_iff)
  with \<open>0 \<le> eps\<close> show ?thesis by (simp add: long_cast_def)
qed

lemma never_below_zero: "\<not> dabs x < Fin 0"
  by (cases x) (simp_all add: dabs_def)

lemma mhmm1_lnf:
  "emission_log_proba_with_nan_support (mhmm_ops exact_math keep_params) mhmm1 [0] = Inr [[Fin 0]]"
  by (simp add: emission_log_proba_with_nan_support_def mhmm_defs mhmm1_def libc_log_def exact_math_def upt_small)

lemma mhmm1_e_step:
  "e_step exact_math junk mhmm1 [[Fin 0]] [[a]] [[b]] [[g]] [[[x]]] p
     = Inr (Fin 0, [[Fin 0]], [[Fin 0]], [[Fin 0]], [[[Fin 0]]])"
  by (simp add: fb_defs mhmm1_def kernel_defs Let_def upt_small)

lemma mhmm1_iteration:
  assumes "0 \<le> eps" and "eps < 1"
  shows "baum_welch_iteration exact_math junk (mhmm_ops exact_math keep_params) [[0]] None eps i
           (mhmm1, F0, [([[a]], [[b]], [[g]], [[[x]]])], printed)
         = Inr (False, (mhmm1, Fin 0, [([[Fin 0]], [[Fin 0]], [[Fin 0]], [[[Fin 0]]])],
                        printed @ [(i, Fin 0)]))"
proof -
  have e: "bw_e_step exact_math junk (mhmm_ops exact_math keep_params) mhmm1 [[0]]
             [([[a]], [[b]], [[g]], [[[x]]])]
           = Inr [([[Fin 0]], Fin 0, [[Fin 0]], [[Fin 0]], [[Fin 0]], [[[Fin 0]]])]"
    by (simp add: bw_e_step_def upt_small mhmm1_lnf mhmm1_e_step)
  have i: "update_initial_probs exact_math mhmm1 [[[Fin 1]]] = mhmm1"
    by (simp add: update_initial_probs_def mhmm1_def np_sum_def kernel_defs Let_def)
  have t: "update_transition_probs exact_math mhmm1 [[[[Fin 0]]]] [[[Fin 0]]] = mhmm1"
    by (simp add: update_transition_probs_def transition_entry_def mhmm1_def np_sum_def kernel_defs
        nan_to_num_def Let_def upt_small upd2_def)
  have u: "update_emission_params (mhmm_ops exact_math keep_params) mhmm1 [0] [[Fin 1]] = mhmm1"
    by (simp add: mhmm_defs mhmm1_def np_sum_def np_dot_def kernel_defs Let_def upt_small upd2_def)
  have g: "eexp2d exact_math [[Fin 0]] = [[Fin 1]]"
    by (simp add: kernel_defs)
  show ?thesis
    unfolding baum_welch_iteration_def Let_def fst_conv snd_conv e
    by (simp add: long_cast_small [OF assms] never_below_zero np_sum_def g i t u)
qed

text \<open>
  C4 fails on the code. The test is \<open>np.abs(dF) < <long>eps\<close>: the cast truncates \<open>eps\<close>, so
  for \<open>0 \<le> eps < 1\<close> the bound is \<open>0\<close> and no iteration ends the loop
  (\<open>no_break_below_one\<close>). On the one-state model \<open>mhmm1\<close> and the sequence \<open>[0]\<close> the
  log-likelihood is \<open>0\<close> in every iteration, so \<open>|F - F_prev| = 0 < eps\<close> from the second
  iteration on; with \<open>eps = 1e-4\<close> and \<open>max_n_iter = 3\<close> all three iterations run and print.
\<close>

theorem baum_welch_runs_past_convergence:
  "baum_welch exact_math NaN (mhmm_ops exact_math keep_params) mhmm1 [[0]] None 3 (1 / 10000)
     = Inr (mhmm1, [(0, Fin 0), (1, Fin 0), (2, Fin 0)])"
proof -
  have r: "[0..<3] = [0, 1, 2]"
    by (simp add: upt_rec)
  have eps: "(0 :: real) \<le> 1 / 10000" "(1 :: real) / 10000 < 1"
    by simp_all
  have n: "n_states mhmm1 = 1"
    by (simp add: mhmm1_def)
  show ?thesis
    unfolding baum_welch_def r
    by (simp add: create_buffers_def n mhmm1_iteration [OF eps])
qed

lemma no_break_below_one:
  assumes "0 \<le> eps" and "eps < 1"
    and "baum_welch_iteration M junk E X_s Y_s eps i st = Inr r"
  shows "\<not> fst r"
  using assms(3)
  by (auto simp: baum_welch_iteration_def Let_def bind_err_Inr_iff long_cast_small [OF assms(1,2)]
      never_below_zero split: if_splits)

lemma mhmm2_e_step_junk:
  "e_step exact_math junk mhmm2 [[Fin 0, Fin 0]] [[a1, a2]] [[b1, b2]] [[g1, g2]] [[[x1, x2], [x3, x4]]] p
     = Inr (Fin 0, [[Fin 0, MInf]], [[Fin 0, Fin 0]], [[Fin 0, MInf]], [[[Fin 0, Fin 0], [MInf, MInf]]])"
  by (simp add: fb_defs mhmm2_def kernel_defs Let_def upt_small)

lemma mhmm2_iteration:
  assumes "0 \<le> eps" and "eps < 1"
  shows "baum_welch_iteration exact_math junk (mhmm_ops exact_math keep_params) [[0]] None eps i
           (mhmm2, F0, [([[a1, a2]], [[b1, b2]], [[g1, g2]], [[[x1, x2], [x3, x4]]])], printed)
         = Inr (False, (mhmm2_after, Fin 0,
                        [([[Fin 0, MInf]], [[Fin 0, Fin 0]], [[Fin 0, MInf]], [[[Fin 0, Fin 0], [MInf, MInf]]])],
                        printed @ [(i, Fin 0)]))"
proof -
  have e: "bw_e_step exact_math junk (mhmm_ops exact_math keep_params) mhmm2 [[0]]
             [([[a1, a2]], [[b1, b2]], [[g1, g2]], [[[x1, x2], [x3, x4]]])]
           = Inr [([[Fin 0, Fin 0]], Fin 0, [[Fin 0, MInf]], [[Fin 0, Fin 0]], [[Fin 0, MInf]],
                   [[[Fin 0, Fin 0], [MInf, MInf]]])]"
    by (simp add: bw_e_step_def upt_small mhmm2_lnf mhmm2_e_step_junk)
  have g: "eexp2d exact_math [[Fin 0, MInf]] = [[Fin 1, Fin 0]]"
    by (simp add: kernel_defs)
  have m: "update_emission_params (mhmm_ops exact_math keep_params)
             (update_transition_probs exact_math (update_initial_probs exact_math mhmm2 [[[Fin 1, Fin 0]]])
                [[[[Fin 0, Fin 0], [MInf, MInf]]]] [[[Fin 0, MInf]]])
             [0] [[Fin 1, Fin 0]]
           = mhmm2_after"
    by (simp add: update_initial_probs_def update_transition_probs_def transition_entry_def mhmm_defs
        mhmm2_def mhmm2_after_def np_sum_def np_dot_def kernel_defs nan_to_num_def Let_def upt_small upd2_def)
  show ?thesis
    unfolding baum_welch_iteration_def Let_def fst_conv snd_conv e
    by (simp add: long_cast_small [OF assms] never_below_zero np_sum_def g m)
qed

text \<open>
  C8 fails on the code. In the two-state model \<open>mhmm2\<close> the exponentials of the log-space
  arrays are the linear-space arrays. One iteration of Baum-Welch on the sequence \<open>[0]\<close> of
  length one leaves \<open>transition_probs\<close> with every entry \<open>1/2\<close> and \<open>ln_transition_probs\<close>
  with every entry \<open>0\<close>, whose exponential is \<open>1\<close>: the rows are normalised after the
  exponential is taken, and the logarithms are not written again.
\<close>

theorem baum_welch_breaks_mirror:
  "map (eexp exact_math) (ln_initial_probs mhmm2) = initial_probs mhmm2
   \<and> eexp2d exact_math (ln_transition_probs mhmm2) = transition_probs mhmm2
   \<and> (\<exists>h'. baum_welch exact_math NaN (mhmm_ops exact_math keep_params) mhmm2 [[0]] None 1 (1 / 10000)
          = Inr (h', [(0, Fin 0)])
       \<and> transition_probs h' = [[Fin (1 / 2), Fin (1 / 2)], [Fin (1 / 2), Fin (1 / 2)]]
       \<and> ln_transition_probs h' = [[Fin 0, Fin 0], [Fin 0, Fin 0]]
       \<and> eexp2d exact_math (ln_transition_probs h') = [[Fin 1, Fin 1], [Fin 1, Fin 1]])"
proof -
  have half: "exp (- ln (2 :: real)) = 1 / 2"
    by (simp add: exp_minus inverse_eq_divide)
  have start: "map (eexp exact_math) (ln_initial_probs mhmm2) = initial_probs mhmm2"
    "eexp2d exact_math (ln_transition_probs mhmm2) = transition_probs mhmm2"
    by (simp_all add: mhmm2_def kernel_defs half)
  have eps: "(0 :: real) \<le> 1 / 10000" "(1 :: real) / 10000 < 1"
    by simp_all
  have n: "n_states mhmm2 = 2"
    by (simp add: mhmm2_def)
  have "baum_welch exact_math NaN (mhmm_ops exact_math keep_params) mhmm2 [[0]] None 1 (1 / 10000)
          = Inr (mhmm2_after, [(0, Fin 0)])"
    unfolding baum_welch_def
    by (simp add: create_buffers_def n upt_small mhmm2_iteration [OF eps])
  moreover have "transition_probs mhmm2_after = [[Fin (1 / 2), Fin (1 / 2)], [Fin (1 / 2), Fin (1 / 2)]]"
    "ln_transition_probs mhmm2_after = [[Fin 0, Fin 0], [Fin 0, Fin 0]]"
    "eexp2d exact_math (ln_transition_probs mhmm2_after) = [[Fin 1, Fin 1], [Fin 1, Fin 1]]"
    by (simp_all add: mhmm2_after_def kernel_defs)
  ultimately show ?thesis using start by blast
qed

section \<open>Start and transition probabilities after the M-step\<close>









lemma mhmm_update_keeps_probs:
  "initial_probs (mhmm_update_emission_params h X gamma) = initial_probs h"
  "transition_probs (mhmm_update_emission_params h X gamma) = transition_probs h"
proof -
  have "initial_probs (fold (mhmm_update_state X gamma) ks g) = initial_probs g
      \<and> transition_probs (fold (mhmm_update_state X gamma) ks g) = transition_probs g" for ks g
    by (induction ks arbitrary: g) (simp_all add: mhmm_update_state_def Let_def)
  then show "initial_probs (mhmm_update_emission_params h X gamma) = initial_probs h"
    and "transition_probs (mhmm_update_emission_params h X gamma) = transition_probs h"
    by (simp_all add: mhmm_update_emission_params_def mhmm_nan_to_zeros_def)
qed

lemma ghmm_update_keeps_probs:
  "initial_probs (ghmm_update_emission_params h X gamma) = initial_probs h"
  "transition_probs (ghmm_update_emission_params h X gamma) = transition_probs h"
proof -
  have "initial_probs (fold (ghmm_update_state X gamma) ks g) = initial_probs g
      \<and> transition_probs (fold (ghmm_update_state X gamma) ks g) = transition_probs g" for ks g
    by (induction ks arbitrary: g) (simp_all add: ghmm_update_state_def Let_def)
  then show "initial_probs (ghmm_update_emission_params h X gamma) = initial_probs h"
    and "transition_probs (ghmm_update_emission_params h X gamma) = transition_probs h"
    by (simp_all add: ghmm_update_emission_params_def ghmm_nan_to_zeros_def)
qed














end
